theory Spec2Isabelle
  imports
    Main
    "HOL-Library.AList"
    "HOL-Library.Char_ord"
    "HOL-Library.List_Lexorder"
    "HOL-Library.Product_Lexorder"
begin

section \<open>The catalog filter of \<open>mirror-filter.go\<close>\<close>

text \<open>
  The development embeds the maintained filter of the repository, the one that is
  configured by a \<open>FilterConfiguration\<close> (\<open>NewMirrorFilter\<close>, \<open>FilterCatalog\<close> and their
  helpers), together with \<open>indexFromDeclCfg\<close>. Go strings are \<open>string\<close>, a Go map that is
  only looked up is a HOL map, a Go map whose length or whose keys are used is an
  association list with distinct keys, and a Go \<open>(value, error)\<close> result is a pair of
  options or a sum.
\<close>

subsection \<open>The catalog (package \<open>declcfg\<close>)\<close>

record ChannelEntry =
  eName :: string
  eReplaces :: string
  eSkips :: "string list"
  eSkipRange :: string

record declcfg_Package =
  pName :: string
  pDefaultChannel :: string

text \<open>
  \<open>cEntries\<close> is a Go slice. The code never tests it for \<open>nil\<close>, so \<open>nil\<close> and the
  empty slice are both the empty list.
\<close>

record declcfg_Channel =
  cName :: string
  cPackage :: string
  cEntries :: "ChannelEntry list"

record Property =
  prType :: string
  prValue :: string

record Bundle =
  bName :: string
  bPackage :: string
  bImage :: string
  bProperties :: "Property list"

text \<open>A deprecation entry, with its \<open>PackageScopedReference\<close> flattened.\<close>

record DeprecationEntry =
  rSchema :: string
  rName :: string
  rMessage :: string

record Deprecation =
  dPackage :: string
  dEntries :: "DeprecationEntry list"

record Meta =
  mSchema :: string
  mPackage :: string
  mName :: string
  mBlob :: string

text \<open>
  \<open>keepPackageDefaultChannel\<close> tests \<open>Channels\<close> for \<open>nil\<close>, so this one slice keeps the
  difference: \<open>None\<close> is \<open>nil\<close>. The other four are lists.
\<close>

record DeclarativeConfig =
  Packages :: "declcfg_Package list"
  Channels :: "declcfg_Channel list option"
  Bundles :: "Bundle list"
  Deprecations :: "Deprecation list"
  Others :: "Meta list"

definition SchemaPackage :: string where "SchemaPackage = ''olm.package''"
definition SchemaChannel :: string where "SchemaChannel = ''olm.channel''"
definition SchemaBundle :: string where "SchemaBundle = ''olm.bundle''"
definition TypePackage :: string where "TypePackage = ''olm.package''"

text \<open>The elements of a possibly \<open>nil\<close> slice.\<close>

definition elems :: "'a list option \<Rightarrow> 'a list" where
  "elems s = (case s of None \<Rightarrow> [] | Some xs \<Rightarrow> xs)"

subsection \<open>The filter configuration\<close>

record cfg_Channel =
  fcName :: string
  fcVersionRange :: string

record SelectedBundle =
  sbName :: string

record cfg_Package =
  fName :: string
  fDefaultChannel :: string
  fVersionRange :: string
  fChannels :: "cfg_Channel list"
  fSelectedBundles :: "SelectedBundle list"

record FilterConfiguration =
  cfgPackages :: "cfg_Package list"

record mirrorFilter =
  pkgConfigs :: "(string \<times> cfg_Package) list"
  chConfigs :: "(string \<times> (string \<times> cfg_Channel) list) list"
  optsFull :: bool

text \<open>Reading a Go map at a missing key gives the zero value.\<close>

definition zeroPackageCfg :: cfg_Package where
  "zeroPackageCfg =
     \<lparr>fName = [], fDefaultChannel = [], fVersionRange = [], fChannels = [],
      fSelectedBundles = []\<rparr>"

definition zeroChannelCfg :: cfg_Channel where
  "zeroChannelCfg = \<lparr>fcName = [], fcVersionRange = []\<rparr>"

definition zeroEntry :: ChannelEntry where
  "zeroEntry = \<lparr>eName = [], eReplaces = [], eSkips = [], eSkipRange = []\<rparr>"

definition pkgConfigOf :: "mirrorFilter \<Rightarrow> string \<Rightarrow> cfg_Package" where
  "pkgConfigOf f p = (case map_of (pkgConfigs f) p of None \<Rightarrow> zeroPackageCfg | Some c \<Rightarrow> c)"

definition chConfigOf :: "mirrorFilter \<Rightarrow> string \<Rightarrow> string \<Rightarrow> cfg_Channel" where
  "chConfigOf f p c =
     (case map_of (chConfigs f) p of
        None \<Rightarrow> zeroChannelCfg
      | Some chs \<Rightarrow> (case map_of chs c of None \<Rightarrow> zeroChannelCfg | Some x \<Rightarrow> x))"

text \<open>
  \<open>NewMirrorFilter\<close>: one pass over the configured packages. A later package filter of
  the same name replaces the earlier one in \<open>pkgConfigs\<close>, and adds its channels to the
  ones already recorded in \<open>chConfigs\<close>.
\<close>

definition addChannels ::
  "(string \<times> cfg_Channel) list \<Rightarrow> cfg_Channel list \<Rightarrow> (string \<times> cfg_Channel) list" where
  "addChannels pkgChannels chs = foldl (\<lambda>m ch. AList.update (fcName ch) ch m) pkgChannels chs"

definition addPackage :: "mirrorFilter \<Rightarrow> cfg_Package \<Rightarrow> mirrorFilter" where
  "addPackage f pkg =
     (let pkgChannels = (case map_of (chConfigs f) (fName pkg) of None \<Rightarrow> [] | Some m \<Rightarrow> m)
      in f\<lparr>pkgConfigs := AList.update (fName pkg) pkg (pkgConfigs f),
            chConfigs := AList.update (fName pkg) (addChannels pkgChannels (fChannels pkg))
                           (chConfigs f)\<rparr>)"

definition NewMirrorFilter :: "FilterConfiguration \<Rightarrow> bool \<Rightarrow> mirrorFilter" where
  "NewMirrorFilter config full =
     foldl addPackage \<lparr>pkgConfigs = [], chConfigs = [], optsFull = full\<rparr> (cfgPackages config)"

subsection \<open>Errors\<close>

datatype error =
    ErrNoPackageProperty string string
  | ErrUnmarshal
  | ErrInvalidSemver
  | ErrOverrideDoesNotExist string
  | ErrDefaultFilteredOut string
  | ErrInvalidDefaultChannelConfiguration string error
  | ErrDefaultChannelNotFound string string
  | ErrFailureFilteringDefaultChannel string error
  | ErrFullWithVersionRange
  | ErrFullWithBundleSelection
  | ErrVersionRangeWithBundleSelection
  | ErrInvalidatingChannel string string error
  | ErrParsingVersionRange
  | ErrEmptyChannel string string string
  | ErrUnableToFilterHead string string error
  | ErrNoChannelHeads
  | ErrMultipleChannelHeads "string list"

subsection \<open>Default channel reconciliation\<close>

text \<open>
  \<open>setDefaultChannel\<close> writes through its package pointer; the model returns the
  package. \<open>channels\<close> is the name set of the index, \<open>None\<close> when the package has no
  entry there (\<open>Has\<close> on the \<open>nil\<close> set is false).
\<close>

definition setHas :: "string set option \<Rightarrow> string \<Rightarrow> bool" where
  "setHas s x = (case s of None \<Rightarrow> False | Some S \<Rightarrow> x \<in> S)"

definition setDefaultChannel ::
  "declcfg_Package \<Rightarrow> cfg_Package \<Rightarrow> string set option \<Rightarrow> error + declcfg_Package" where
  "setDefaultChannel pkg pkgConfig channels =
     (if pDefaultChannel pkg = [] \<and> fDefaultChannel pkgConfig = [] then Inr pkg
      else if fDefaultChannel pkgConfig \<noteq> [] then
        (if \<not> setHas channels (fDefaultChannel pkgConfig)
         then Inl (ErrOverrideDoesNotExist (fDefaultChannel pkgConfig))
         else Inr (pkg\<lparr>pDefaultChannel := fDefaultChannel pkgConfig\<rparr>))
      else if \<not> setHas channels (pDefaultChannel pkg)
        then Inl (ErrDefaultFilteredOut (pDefaultChannel pkg))
      else Inr pkg)"

subsection \<open>What the filter takes from outside the repository, and from \<open>channel.go\<close>\<close>

text \<open>
  JSON decoding and the semantic-version library are not code of this repository, and
  \<open>filterByVersionRange\<close> lives in a file that is not among the sources. They are
  parameters of the model: \<open>unmarshalVersion\<close> decodes the value of an \<open>olm.package\<close>
  property to its version string, \<open>StrictNewVersion\<close> and \<open>NewConstraint\<close> parse, and
  \<open>filterByVersionRange\<close> maps a channel, a constraint and the versions of the package's
  bundles to the set of entry names to keep. Every theorem below holds for all of them.
\<close>

record ('c, 'v) externals =
  unmarshalVersion :: "string \<Rightarrow> string option"
  StrictNewVersion :: "string \<Rightarrow> 'v option"
  NewConstraint :: "string \<Rightarrow> 'c option"
  filterByVersionRange :: "declcfg_Channel \<Rightarrow> 'c \<Rightarrow> (string \<rightharpoonup> 'v) \<Rightarrow> string list"

text \<open>
  Modelled from the spec: \<open>newChannel\<close>, of which the filter uses the error and the name
  of the head. The spec's channel model has one node per entry name; the head is the
  unique entry node with no in-edge, an in-edge being a \<open>replaces\<close> or a \<open>skips\<close> of some
  entry that names the node; no head is \<open>no channel heads found\<close>, several are
  \<open>multiple channel heads\<close>.
\<close>

definition hasInEdge :: "ChannelEntry list \<Rightarrow> string \<Rightarrow> bool" where
  "hasInEdge es n = list_ex (\<lambda>e. (eReplaces e \<noteq> [] \<and> eReplaces e = n) \<or> n \<in> set (eSkips e)) es"

definition channelHeads :: "ChannelEntry list \<Rightarrow> string list" where
  "channelHeads es = filter (\<lambda>n. \<not> hasInEdge es n) (remdups (map eName es))"

definition newChannel :: "declcfg_Channel \<Rightarrow> error + string" where
  "newChannel ch =
     (case channelHeads (cEntries ch) of
        [] \<Rightarrow> Inl ErrNoChannelHeads
      | [h] \<Rightarrow> Inr h
      | h # h' # hs \<Rightarrow> Inl (ErrMultipleChannelHeads (h # h' # hs)))"

subsection \<open>The index (\<open>indexFromDeclCfg\<close>)\<close>

record 'v operatorIndex =
  ixPackages :: "string \<rightharpoonup> declcfg_Package"
  ixChannels :: "string \<rightharpoonup> declcfg_Channel list"
  ixChannelNames :: "string \<rightharpoonup> string set"
  ixChannelEntries :: "string \<rightharpoonup> (string \<rightharpoonup> (string \<rightharpoonup> ChannelEntry))"
  ixBundlesByPkgAndName :: "string \<rightharpoonup> (string \<rightharpoonup> Bundle)"
  ixBundleVersionsByPkgAndName :: "string \<rightharpoonup> (string \<rightharpoonup> 'v)"

definition newOperatorIndex :: "'v operatorIndex" where
  "newOperatorIndex =
     \<lparr>ixPackages = Map.empty, ixChannels = Map.empty, ixChannelNames = Map.empty,
      ixChannelEntries = Map.empty, ixBundlesByPkgAndName = Map.empty,
      ixBundleVersionsByPkgAndName = Map.empty\<rparr>"

text \<open>A map read at a missing key, for maps of maps and maps of slices.\<close>

definition orEmpty :: "('a \<rightharpoonup> 'b) option \<Rightarrow> ('a \<rightharpoonup> 'b)" where
  "orEmpty m = (case m of None \<Rightarrow> Map.empty | Some x \<Rightarrow> x)"

fun getVersionFrom ::
  "('c, 'v) externals \<Rightarrow> Bundle \<Rightarrow> Property list \<Rightarrow> error + 'v" where
  "getVersionFrom ext b [] = Inl (ErrNoPackageProperty (bName b) (bPackage b))"
| "getVersionFrom ext b (p # ps) =
     (if prType p \<noteq> TypePackage then getVersionFrom ext b ps
      else (case unmarshalVersion ext (prValue p) of
              None \<Rightarrow> Inl ErrUnmarshal
            | Some s \<Rightarrow> (case StrictNewVersion ext s of
                          None \<Rightarrow> Inl ErrInvalidSemver
                        | Some v \<Rightarrow> Inr v)))"

definition getBundleVersion :: "('c, 'v) externals \<Rightarrow> Bundle \<Rightarrow> error + 'v" where
  "getBundleVersion ext b = getVersionFrom ext b (bProperties b)"

definition indexPackage :: "'v operatorIndex \<Rightarrow> declcfg_Package \<Rightarrow> 'v operatorIndex" where
  "indexPackage index p = index\<lparr>ixPackages := (ixPackages index)(pName p \<mapsto> p)\<rparr>"

definition indexEntry ::
  "declcfg_Channel \<Rightarrow> (string \<rightharpoonup> (string \<rightharpoonup> (string \<rightharpoonup> ChannelEntry))) \<Rightarrow> ChannelEntry \<Rightarrow>
   (string \<rightharpoonup> (string \<rightharpoonup> (string \<rightharpoonup> ChannelEntry)))" where
  "indexEntry c m e =
     (let pm = orEmpty (m (cPackage c)); cm = orEmpty (pm (cName c))
      in m(cPackage c \<mapsto> pm(cName c \<mapsto> cm(eName e \<mapsto> e))))"

definition indexChannel :: "'v operatorIndex \<Rightarrow> declcfg_Channel \<Rightarrow> 'v operatorIndex" where
  "indexChannel index c =
     index\<lparr>ixChannels :=
             (ixChannels index)(cPackage c \<mapsto>
                (case ixChannels index (cPackage c) of None \<Rightarrow> [] | Some l \<Rightarrow> l) @ [c]),
           ixChannelNames :=
             (ixChannelNames index)(cPackage c \<mapsto>
                insert (cName c)
                  (case ixChannelNames index (cPackage c) of None \<Rightarrow> {} | Some S \<Rightarrow> S)),
           ixChannelEntries := foldl (indexEntry c) (ixChannelEntries index) (cEntries c)\<rparr>"

definition indexBundle ::
  "('c, 'v) externals \<Rightarrow> 'v operatorIndex \<Rightarrow> Bundle \<Rightarrow> error + 'v operatorIndex" where
  "indexBundle ext index b =
     (case getBundleVersion ext b of
        Inl err \<Rightarrow> Inl err
      | Inr v \<Rightarrow>
          (let bm = orEmpty (ixBundlesByPkgAndName index (bPackage b));
               bm' = (case bm (bName b) of None \<Rightarrow> bm(bName b \<mapsto> b) | Some _ \<Rightarrow> bm);
               vm = orEmpty (ixBundleVersionsByPkgAndName index (bPackage b))
           in Inr (index\<lparr>ixBundlesByPkgAndName :=
                            (ixBundlesByPkgAndName index)(bPackage b \<mapsto> bm'),
                          ixBundleVersionsByPkgAndName :=
                            (ixBundleVersionsByPkgAndName index)(bPackage b \<mapsto>
                               vm(bName b \<mapsto> v))\<rparr>)))"

fun indexBundles ::
  "('c, 'v) externals \<Rightarrow> 'v operatorIndex \<Rightarrow> Bundle list \<Rightarrow> error + 'v operatorIndex" where
  "indexBundles ext index [] = Inr index"
| "indexBundles ext index (b # bs) =
     (case indexBundle ext index b of
        Inl err \<Rightarrow> Inl err
      | Inr index' \<Rightarrow> indexBundles ext index' bs)"

definition indexFromDeclCfg ::
  "('c, 'v) externals \<Rightarrow> DeclarativeConfig \<Rightarrow> error + 'v operatorIndex" where
  "indexFromDeclCfg ext cfg =
     indexBundles ext
       (foldl indexChannel (foldl indexPackage newOperatorIndex (Packages cfg))
          (elems (Channels cfg)))
       (Bundles cfg)"

subsection \<open>Pruning to the configured packages and channels\<close>

definition configured :: "mirrorFilter \<Rightarrow> string \<Rightarrow> bool" where
  "configured f p = (map_of (chConfigs f) p \<noteq> None)"

definition keepChannel :: "mirrorFilter \<Rightarrow> declcfg_Channel \<Rightarrow> bool" where
  "keepChannel f ch =
     (case map_of (chConfigs f) (cPackage ch) of
        None \<Rightarrow> False
      | Some chSet \<Rightarrow> (if chSet \<noteq> [] then map_of chSet (cName ch) \<noteq> None else True))"

text \<open>An empty result is set to \<open>nil\<close>, which only \<open>Channels\<close> distinguishes here.\<close>

definition filterByPackageAndChannels ::
  "mirrorFilter \<Rightarrow> DeclarativeConfig \<Rightarrow> DeclarativeConfig \<Rightarrow> DeclarativeConfig" where
  "filterByPackageAndChannels f fbc filteredFBC =
     filteredFBC
       \<lparr>Packages := filter (\<lambda>pkg. configured f (pName pkg)) (Packages fbc),
        Channels :=
          (let chs = filter (keepChannel f) (elems (Channels fbc))
           in if chs = [] then None else Some chs),
        Bundles := filter (\<lambda>bdl. configured f (bPackage bdl)) (Bundles fbc),
        Deprecations := filter (\<lambda>d. configured f (dPackage d)) (Deprecations fbc),
        Others := filter (\<lambda>meta. mPackage meta = [] \<or> configured f (mPackage meta)) (Others fbc)\<rparr>"

definition emptyDeclarativeConfig :: DeclarativeConfig where
  "emptyDeclarativeConfig =
     \<lparr>Packages = [], Channels = None, Bundles = [], Deprecations = [], Others = []\<rparr>"

subsection \<open>Keeping the default channel of a package\<close>

text \<open>
  \<open>compareChannels\<close> and \<open>compareBundles\<close> compare the package, then the name, with
  \<open>strings.Compare\<close>: the lexicographic order of the pair of strings.
  \<open>slices.SortFunc\<close> is modelled by the insertion sort \<open>sort_key\<close>; the order that Go
  gives to elements that compare equal is not specified. \<open>slices.BinarySearchFunc\<close> on a
  sorted slice returns the first position whose element is not smaller than the target,
  and whether the element there compares equal.
\<close>

definition channelKey :: "declcfg_Channel \<Rightarrow> string \<times> string" where
  "channelKey c = (cPackage c, cName c)"

definition bundleKey :: "Bundle \<Rightarrow> string \<times> string" where
  "bundleKey b = (bPackage b, bName b)"

definition BinarySearchFunc :: "declcfg_Channel list \<Rightarrow> declcfg_Channel \<Rightarrow> nat \<times> bool" where
  "BinarySearchFunc xs t =
     (let i = length (takeWhile (\<lambda>c. channelKey c < channelKey t) xs)
      in (i, i < length xs \<and> channelKey (xs ! i) = channelKey t))"

text \<open>
  The sort is in place, on the slice that the index holds for the package: the index
  is returned with it.
\<close>

definition keepPackageDefaultChannel ::
  "DeclarativeConfig \<Rightarrow> declcfg_Package \<Rightarrow> 'v operatorIndex \<Rightarrow>
   error + (DeclarativeConfig \<times> 'v operatorIndex)" where
  "keepPackageDefaultChannel fbc pkg index =
     (let defaultChan = \<lparr>cName = pDefaultChannel pkg, cPackage = pName pkg, cEntries = []\<rparr>;
          sorted = sort_key channelKey
                     (case ixChannels index (pName pkg) of None \<Rightarrow> [] | Some l \<Rightarrow> l);
          index' = (case ixChannels index (pName pkg) of
                      None \<Rightarrow> index
                    | Some l \<Rightarrow> index\<lparr>ixChannels := (ixChannels index)(pName pkg \<mapsto> sorted)\<rparr>);
          found = BinarySearchFunc sorted defaultChan;
          channelIndex = fst found
      in if snd found then
           (case Channels fbc of
              None \<Rightarrow> Inr (fbc\<lparr>Channels := Some [sorted ! channelIndex]\<rparr>, index')
            | Some chs \<Rightarrow>
                if length sorted = 0
                then Inr (fbc\<lparr>Channels := Some (chs @ [sorted ! channelIndex])\<rparr>, index')
                else Inr (fbc\<lparr>Channels :=
                                Some (filter
                                  (\<lambda>ch. \<not> (cPackage ch = pName pkg \<and>
                                            cName ch \<noteq> cName (sorted ! channelIndex))) chs)\<rparr>,
                          index'))
         else Inl (ErrDefaultChannelNotFound (pDefaultChannel pkg) (pName pkg)))"

subsection \<open>The loop over the packages\<close>

text \<open>
  The body of the first loop of \<open>FilterCatalog\<close>, for the package \<open>pkg\<close> at position
  \<open>pkgIndex\<close>. The state is the catalog being filtered and the index.
\<close>

definition packageBody ::
  "mirrorFilter \<Rightarrow> nat \<Rightarrow> declcfg_Package \<Rightarrow> DeclarativeConfig \<times> 'v operatorIndex \<Rightarrow>
   error + (DeclarativeConfig \<times> 'v operatorIndex)" where
  "packageBody f pkgIndex pkg st =
     (let filteredFBC = fst st; catalogIndex = snd st
      in case map_of (pkgConfigs f) (pName pkg) of
           Some pkgConfig \<Rightarrow>
             (case setDefaultChannel pkg pkgConfig (ixChannelNames catalogIndex (pName pkg)) of
                Inl err \<Rightarrow> Inl (ErrInvalidDefaultChannelConfiguration (pName pkg) err)
              | Inr pkg' \<Rightarrow>
                  (let fbc1 = filteredFBC\<lparr>Packages :=
                                (Packages filteredFBC)[pkgIndex :=
                                   (Packages filteredFBC ! pkgIndex)
                                     \<lparr>pDefaultChannel := pDefaultChannel pkg'\<rparr>]\<rparr>
                   in if (fChannels pkgConfig = [] \<and> \<not> optsFull f) \<and>
                         fSelectedBundles pkgConfig = []
                      then (case keepPackageDefaultChannel fbc1 pkg' catalogIndex of
                              Inl err \<Rightarrow> Inl (ErrFailureFilteringDefaultChannel (pName pkg) err)
                            | Inr st' \<Rightarrow> Inr st')
                      else Inr (fbc1, catalogIndex)))
         | None \<Rightarrow>
             (if \<not> optsFull f
              then (case keepPackageDefaultChannel filteredFBC pkg catalogIndex of
                      Inl err \<Rightarrow> Inl (ErrFailureFilteringDefaultChannel (pName pkg) err)
                    | Inr st' \<Rightarrow> Inr st')
              else Inr st))"

fun packageLoop ::
  "mirrorFilter \<Rightarrow> nat \<Rightarrow> declcfg_Package list \<Rightarrow> DeclarativeConfig \<times> 'v operatorIndex \<Rightarrow>
   error + (DeclarativeConfig \<times> 'v operatorIndex)" where
  "packageLoop f pkgIndex [] st = Inr st"
| "packageLoop f pkgIndex (pkg # rest) st =
     (case packageBody f pkgIndex pkg st of
        Inl err \<Rightarrow> Inl err
      | Inr st' \<Rightarrow> packageLoop f (Suc pkgIndex) rest st')"

subsection \<open>The loop over the channels\<close>

text \<open>
  \<open>keepBundles\<close> maps a package to a set of bundle names. Its length and its keys are
  used, so it is an association list, in the order in which the keys were inserted, of
  lists without repetition.
\<close>

definition setInsert :: "string list \<Rightarrow> string list \<Rightarrow> string list" where
  "setInsert s names = foldl (\<lambda>acc n. if n \<in> set acc then acc else acc @ [n]) s names"

definition keepInsert ::
  "(string \<times> string list) list \<Rightarrow> string \<Rightarrow> string list \<Rightarrow> (string \<times> string list) list" where
  "keepInsert keepBundles pkg names =
     AList.update pkg
       (setInsert (case map_of keepBundles pkg of None \<Rightarrow> [] | Some s \<Rightarrow> s) names) keepBundles"

definition bundleNames :: "SelectedBundle list \<Rightarrow> string list" where
  "bundleNames bundles = map sbName bundles"

definition lookupEntry :: "'v operatorIndex \<Rightarrow> string \<Rightarrow> string \<Rightarrow> string \<Rightarrow> ChannelEntry" where
  "lookupEntry index pkg ch n =
     (case orEmpty (orEmpty (ixChannelEntries index pkg) ch) n of
        None \<Rightarrow> zeroEntry
      | Some e \<Rightarrow> e)"

definition filterChannelHead ::
  "declcfg_Channel \<Rightarrow> 'v operatorIndex \<Rightarrow> error + (declcfg_Channel \<times> string)" where
  "filterChannelHead ch index =
     (case newChannel ch of
        Inl err \<Rightarrow> Inl err
      | Inr head \<Rightarrow>
          Inr (ch\<lparr>cEntries := [lookupEntry index (cPackage ch) (cName ch) head]\<rparr>, head))"

definition effectiveVersionRange :: "mirrorFilter \<Rightarrow> declcfg_Channel \<Rightarrow> string" where
  "effectiveVersionRange f ch =
     (let versionRange = fcVersionRange (chConfigOf f (cPackage ch) (cName ch))
      in if versionRange = [] \<and> fVersionRange (pkgConfigOf f (cPackage ch)) \<noteq> []
         then fVersionRange (pkgConfigOf f (cPackage ch))
         else versionRange)"

text \<open>
  The body of the second loop, for the channel \<open>ch\<close> read at position \<open>channelIndex\<close>.
  The state is the slice of channels, written in place at that position, and
  \<open>keepBundles\<close>.
\<close>

definition channelBody ::
  "('c, 'v) externals \<Rightarrow> mirrorFilter \<Rightarrow> 'v operatorIndex \<Rightarrow> nat \<Rightarrow> declcfg_Channel \<Rightarrow>
   declcfg_Channel list \<times> (string \<times> string list) list \<Rightarrow>
   error + (declcfg_Channel list \<times> (string \<times> string list) list)" where
  "channelBody ext f catalogIndex channelIndex ch st =
     (let chans = fst st; keepBundles = snd st;
          versionRange = effectiveVersionRange f ch;
          selected = fSelectedBundles (pkgConfigOf f (cPackage ch))
      in if optsFull f \<and> versionRange \<noteq> [] then Inl ErrFullWithVersionRange
         else if optsFull f \<and> selected \<noteq> [] then Inl ErrFullWithBundleSelection
         else if selected \<noteq> [] \<and> versionRange \<noteq> [] then Inl ErrVersionRangeWithBundleSelection
         else if selected \<noteq> [] then
           (let cur = (chans ! channelIndex)
                        \<lparr>cEntries := filter (\<lambda>e. eName e \<in> set (bundleNames selected))
                                       (cEntries (chans ! channelIndex))\<rparr>
            in case newChannel cur of
                 Inl err \<Rightarrow> Inl (ErrInvalidatingChannel (cName ch) (cPackage ch) err)
               | Inr _ \<Rightarrow>
                   Inr (chans[channelIndex := cur],
                        keepInsert keepBundles (cPackage ch) (bundleNames selected)))
         else if optsFull f then
           Inr (chans,
                foldl (\<lambda>kb entry. keepInsert kb (cPackage ch) [eName entry]) keepBundles
                  (cEntries ch))
         else if versionRange \<noteq> [] then
           (case NewConstraint ext versionRange of
              None \<Rightarrow> Inl ErrParsingVersionRange
            | Some rangeConstraint \<Rightarrow>
                (case newChannel ch of
                   Inl err \<Rightarrow> Inl err
                 | Inr _ \<Rightarrow>
                     (let keepEntries =
                            filterByVersionRange ext ch rangeConstraint
                              (orEmpty (ixBundleVersionsByPkgAndName catalogIndex (cPackage ch)))
                      in if keepEntries = []
                         then Inl (ErrEmptyChannel (cPackage ch) (cName ch) versionRange)
                         else Inr (chans[channelIndex :=
                                      (chans ! channelIndex)
                                        \<lparr>cEntries := filter (\<lambda>e. eName e \<in> set keepEntries)
                                                       (cEntries (chans ! channelIndex))\<rparr>],
                                   keepInsert keepBundles (cPackage ch) keepEntries))))
         else
           (case filterChannelHead ch catalogIndex of
              Inl err \<Rightarrow> Inl (ErrUnableToFilterHead (cPackage ch) (cName ch) err)
            | Inr r \<Rightarrow>
                Inr (chans[channelIndex := fst r],
                     keepInsert keepBundles (cPackage ch) [snd r])))"

fun channelLoop ::
  "('c, 'v) externals \<Rightarrow> mirrorFilter \<Rightarrow> 'v operatorIndex \<Rightarrow> nat \<Rightarrow> declcfg_Channel list \<Rightarrow>
   declcfg_Channel list \<times> (string \<times> string list) list \<Rightarrow>
   error + (declcfg_Channel list \<times> (string \<times> string list) list)" where
  "channelLoop ext f catalogIndex channelIndex [] st = Inr st"
| "channelLoop ext f catalogIndex channelIndex (ch # rest) st =
     (case channelBody ext f catalogIndex channelIndex ch st of
        Inl err \<Rightarrow> Inl err
      | Inr st' \<Rightarrow> channelLoop ext f catalogIndex (Suc channelIndex) rest st')"

subsection \<open>Bundles and deprecations\<close>

text \<open>
  The bundles are collected by a walk over \<open>keepBundles\<close>, whose order Go leaves open,
  and then sorted by package and name.
\<close>

definition lookupBundle :: "'v operatorIndex \<Rightarrow> string \<Rightarrow> string \<Rightarrow> Bundle option" where
  "lookupBundle index pkg b = orEmpty (ixBundlesByPkgAndName index pkg) b"

definition collectBundles ::
  "'v operatorIndex \<Rightarrow> (string \<times> string list) list \<Rightarrow> Bundle list" where
  "collectBundles index keepBundles =
     concat (map (\<lambda>kv. List.map_filter (lookupBundle index (fst kv)) (snd kv)) keepBundles)"

definition deleteDeprecationEntry ::
  "'v operatorIndex \<Rightarrow> (string \<times> string list) list \<Rightarrow> Deprecation \<Rightarrow> DeprecationEntry \<Rightarrow> bool"
  where
  "deleteDeprecationEntry index keptBundles d e =
     (if rSchema e = SchemaBundle then
        (case map_of keptBundles (dPackage d) of
           None \<Rightarrow> False
         | Some bundles \<Rightarrow> rName e \<notin> set bundles)
      else if rSchema e = SchemaChannel then
        (case ixChannelNames index (dPackage d) of
           None \<Rightarrow> False
         | Some channels \<Rightarrow> rName e \<notin> channels)
      else False)"

definition filterDeprecations ::
  "DeclarativeConfig \<Rightarrow> 'v operatorIndex \<Rightarrow> (string \<times> string list) list \<Rightarrow> DeclarativeConfig"
  where
  "filterDeprecations fbc index keptBundles =
     fbc\<lparr>Deprecations :=
           map (\<lambda>d. d\<lparr>dEntries :=
                        filter (\<lambda>e. \<not> deleteDeprecationEntry index keptBundles d e) (dEntries d)\<rparr>)
             (Deprecations fbc)\<rparr>"

subsection \<open>\<open>FilterCatalog\<close>\<close>

text \<open>
  The result is Go's pair of a catalog pointer and an error; \<open>None\<close> is \<open>nil\<close>. With an
  empty configuration \<open>filteredFBC\<close> is the input catalog itself. This model computes
  the returned catalog as a value; what the call does to the input through shared
  memory is the subject of the store model further down.
\<close>

definition FilterCatalog ::
  "('c, 'v) externals \<Rightarrow> mirrorFilter \<Rightarrow> DeclarativeConfig option \<Rightarrow>
   DeclarativeConfig option \<times> error option" where
  "FilterCatalog ext f fbcPtr =
     (case fbcPtr of
        None \<Rightarrow> (None, None)
      | Some fbc \<Rightarrow>
          (let filteredFBC =
                 (if pkgConfigs f \<noteq> []
                  then filterByPackageAndChannels f fbc emptyDeclarativeConfig
                  else fbc)
           in case indexFromDeclCfg ext filteredFBC of
                Inl err \<Rightarrow> (Some filteredFBC, Some err)
              | Inr catalogIndex \<Rightarrow>
                  (case packageLoop f 0 (Packages filteredFBC) (filteredFBC, catalogIndex) of
                     Inl err \<Rightarrow> (None, Some err)
                   | Inr st1 \<Rightarrow>
                       (case channelLoop ext f (snd st1) 0 (elems (Channels (fst st1)))
                               (elems (Channels (fst st1)), []) of
                          Inl err \<Rightarrow> (None, Some err)
                        | Inr st2 \<Rightarrow>
                            (let fbc2 = (fst st1)\<lparr>Channels :=
                                          map_option (\<lambda>_. fst st2) (Channels (fst st1))\<rparr>;
                                 keepBundles = snd st2
                             in if keepBundles \<noteq> []
                                then (Some (filterDeprecations
                                        (fbc2\<lparr>Bundles :=
                                           sort_key bundleKey
                                             (collectBundles (snd st1) keepBundles)\<rparr>)
                                        (snd st1) keepBundles), None)
                                else (Some fbc2, None))))))"

subsection \<open>Notions used in the statements\<close>

text \<open>The catalog that \<open>FilterCatalog\<close> works on after its first step.\<close>

definition pruned :: "mirrorFilter \<Rightarrow> DeclarativeConfig \<Rightarrow> DeclarativeConfig" where
  "pruned f fbc =
     (if pkgConfigs f \<noteq> [] then filterByPackageAndChannels f fbc emptyDeclarativeConfig else fbc)"

text \<open>Default channel reconciliation raises no error for the package.\<close>

definition reconcilesPkg :: "mirrorFilter \<Rightarrow> 'v operatorIndex \<Rightarrow> declcfg_Package \<Rightarrow> bool" where
  "reconcilesPkg f index pkg =
     (case map_of (pkgConfigs f) (pName pkg) of
        None \<Rightarrow> True
      | Some pkgConfig \<Rightarrow>
          \<not> isl (setDefaultChannel pkg pkgConfig (ixChannelNames index (pName pkg))))"

subsection \<open>Concrete inputs\<close>

text \<open>
  A stand-in for the libraries, to run the model on concrete catalogs: a property value
  is its version string, every non-empty string parses, and the version range filter
  keeps every entry.
\<close>

definition exampleExternals :: "(string, string) externals" where
  "exampleExternals =
     \<lparr>unmarshalVersion = Some,
      StrictNewVersion = (\<lambda>s. if s = [] then None else Some s),
      NewConstraint = (\<lambda>s. if s = [] then None else Some s),
      filterByVersionRange = (\<lambda>ch c versions. map eName (cEntries ch))\<rparr>"

definition mkBundle :: "string \<Rightarrow> string \<Rightarrow> string \<Rightarrow> Bundle" where
  "mkBundle pkg n v =
     \<lparr>bName = n, bPackage = pkg, bImage = [],
      bProperties = [\<lparr>prType = ''olm.package'', prValue = v\<rparr>]\<rparr>"

definition mkEntry :: "string \<Rightarrow> string \<Rightarrow> ChannelEntry" where
  "mkEntry n r = \<lparr>eName = n, eReplaces = r, eSkips = [], eSkipRange = []\<rparr>"

definition rangeConfig :: FilterConfiguration where
  "rangeConfig =
     \<lparr>cfgPackages = [\<lparr>fName = ''p'', fDefaultChannel = [], fVersionRange = ''>=1.0.0'',
                      fChannels = [], fSelectedBundles = []\<rparr>]\<rparr>"

definition smallCatalog :: DeclarativeConfig where
  "smallCatalog =
     \<lparr>Packages = [\<lparr>pName = ''p'', pDefaultChannel = ''a''\<rparr>],
      Channels = Some [\<lparr>cName = ''a'', cPackage = ''p'',
                        cEntries = [mkEntry ''x2'' ''x1'', mkEntry ''x1'' []]\<rparr>],
      Bundles = [mkBundle ''p'' ''x2'' ''2.0.0'', mkBundle ''p'' ''x1'' ''1.0.0''],
      Deprecations = [], Others = []\<rparr>"

definition otherCatalog :: DeclarativeConfig where
  "otherCatalog =
     \<lparr>Packages = [\<lparr>pName = ''q'', pDefaultChannel = ''a''\<rparr>],
      Channels = Some [\<lparr>cName = ''a'', cPackage = ''q'', cEntries = [mkEntry ''y1'' []]\<rparr>],
      Bundles = [mkBundle ''q'' ''y1'' ''1.0.0''],
      Deprecations = [], Others = []\<rparr>"

definition twoChannelCatalog :: "string \<Rightarrow> DeclarativeConfig" where
  "twoChannelCatalog dflt =
     \<lparr>Packages = [\<lparr>pName = ''p'', pDefaultChannel = dflt\<rparr>],
      Channels = Some [\<lparr>cName = ''a'', cPackage = ''p'',
                        cEntries = [mkEntry ''x2'' ''x1'', mkEntry ''x1'' []]\<rparr>,
                       \<lparr>cName = ''b'', cPackage = ''p'', cEntries = [mkEntry ''y1'' []]\<rparr>],
      Bundles = [mkBundle ''p'' ''x2'' ''2.0.0'', mkBundle ''p'' ''x1'' ''1.0.0'',
                 mkBundle ''p'' ''y1'' ''3.0.0''],
      Deprecations =
        [\<lparr>dPackage = ''p'',
          dEntries = [\<lparr>rSchema = ''olm.channel'', rName = ''b'', rMessage = []\<rparr>]\<rparr>],
      Others = []\<rparr>"

definition channelConfig :: "string \<Rightarrow> string \<Rightarrow> FilterConfiguration" where
  "channelConfig dflt ch =
     \<lparr>cfgPackages = [\<lparr>fName = ''p'', fDefaultChannel = dflt, fVersionRange = [],
                      fChannels = [\<lparr>fcName = ch, fcVersionRange = []\<rparr>],
                      fSelectedBundles = []\<rparr>]\<rparr>"

subsection \<open>What a catalog holds, for the statements\<close>

text \<open>
  The names of the channels of a package, the names of the entries of its channels, and
  the first bundle of a package with a given name.
\<close>

definition channelNames :: "DeclarativeConfig \<Rightarrow> string \<Rightarrow> string set" where
  "channelNames fbc pkg =
     set (map cName (filter (\<lambda>ch. cPackage ch = pkg) (elems (Channels fbc))))"

definition entryNames :: "DeclarativeConfig \<Rightarrow> string \<Rightarrow> string set" where
  "entryNames fbc pkg =
     set (concat (map (\<lambda>ch. map eName (cEntries ch))
                    (filter (\<lambda>ch. cPackage ch = pkg) (elems (Channels fbc)))))"

definition firstBundle :: "DeclarativeConfig \<Rightarrow> string \<Rightarrow> string \<Rightarrow> Bundle option" where
  "firstBundle fbc pkg n = find (\<lambda>b. bPackage b = pkg \<and> bName b = n) (Bundles fbc)"

text \<open>The bundles that an entry of a channel of their package names.\<close>

definition namedBundles :: "DeclarativeConfig \<Rightarrow> Bundle set" where
  "namedBundles fbc =
     set (filter (\<lambda>b. firstBundle fbc (bPackage b) (bName b) = Some b \<and>
                      bName b \<in> entryNames fbc (bPackage b)) (Bundles fbc))"

text \<open>
  The deprecation entries that a full filter without configuration keeps: all but the
  bundle entries that no entry of the package's channels names, when there are such
  entries, and the channel entries that name no channel of the package, when it has
  channels.
\<close>

definition keptByFull :: "DeclarativeConfig \<Rightarrow> Deprecation \<Rightarrow> DeprecationEntry \<Rightarrow> bool" where
  "keptByFull fbc d e =
     (\<not> (rSchema e = SchemaBundle \<and> entryNames fbc (dPackage d) \<noteq> {} \<and>
         rName e \<notin> entryNames fbc (dPackage d)) \<and>
      \<not> (rSchema e = SchemaChannel \<and> channelNames fbc (dPackage d) \<noteq> {} \<and>
         rName e \<notin> channelNames fbc (dPackage d)))"

text \<open>What the loop over the channels records for one channel of a full filter.\<close>

definition keepEntriesOf ::
  "(string \<times> string list) list \<Rightarrow> declcfg_Channel \<Rightarrow> (string \<times> string list) list" where
  "keepEntriesOf kb ch = foldl (\<lambda>kb entry. keepInsert kb (cPackage ch) [eName entry]) kb (cEntries ch)"

definition packageOnlyConfig :: FilterConfiguration where
  "packageOnlyConfig =
     \<lparr>cfgPackages = [\<lparr>fName = ''p'', fDefaultChannel = [], fVersionRange = [],
                      fChannels = [], fSelectedBundles = []\<rparr>]\<rparr>"

subsection \<open>The loop over the packages, for the statements\<close>

text \<open>
  The keys (package and name) of the channels that the index holds for a package, and
  the default channel that the loop over the packages leaves at position \<open>i\<close> once it
  has passed the packages up to that position; \<open>None\<close> when the loop fails before or
  there.
\<close>

definition channelKeys :: "'v operatorIndex \<Rightarrow> string \<Rightarrow> (string \<times> string) set" where
  "channelKeys index p =
     channelKey ` set (case ixChannels index p of None \<Rightarrow> [] | Some l \<Rightarrow> l)"

definition defaultAfter ::
  "mirrorFilter \<Rightarrow> DeclarativeConfig \<Rightarrow> 'v operatorIndex \<Rightarrow> nat \<Rightarrow> string option" where
  "defaultAfter f fbc index i =
     (case packageLoop f 0 (take (Suc i) (Packages fbc)) (fbc, index) of
        Inl err \<Rightarrow> None
      | Inr st \<Rightarrow> Some (pDefaultChannel (Packages (fst st) ! i)))"

text \<open>
  A catalog with the packages \<open>p\<close> (channels \<open>a\<close> and \<open>b\<close>, default \<open>a\<close>) and \<open>q\<close>
  (channel \<open>a\<close>, default \<open>a\<close>), and a configuration that keeps the channel \<open>b\<close> of \<open>p\<close>
  and the channel \<open>a\<close> of \<open>q\<close>, with the default channel \<open>zq\<close> for \<open>q\<close>.
\<close>

definition twoPackageCatalog :: DeclarativeConfig where
  "twoPackageCatalog =
     \<lparr>Packages = [\<lparr>pName = ''p'', pDefaultChannel = ''a''\<rparr>,
                  \<lparr>pName = ''q'', pDefaultChannel = ''a''\<rparr>],
      Channels = Some [\<lparr>cName = ''a'', cPackage = ''p'', cEntries = [mkEntry ''x1'' []]\<rparr>,
                       \<lparr>cName = ''b'', cPackage = ''p'', cEntries = [mkEntry ''y1'' []]\<rparr>,
                       \<lparr>cName = ''a'', cPackage = ''q'', cEntries = [mkEntry ''z1'' []]\<rparr>],
      Bundles = [mkBundle ''p'' ''x1'' ''1.0.0'', mkBundle ''p'' ''y1'' ''3.0.0'',
                 mkBundle ''q'' ''z1'' ''1.0.0''],
      Deprecations = [], Others = []\<rparr>"

definition twoPackageConfig :: FilterConfiguration where
  "twoPackageConfig =
     \<lparr>cfgPackages =
        [\<lparr>fName = ''p'', fDefaultChannel = [], fVersionRange = [],
          fChannels = [\<lparr>fcName = ''b'', fcVersionRange = []\<rparr>], fSelectedBundles = []\<rparr>,
         \<lparr>fName = ''q'', fDefaultChannel = ''zq'', fVersionRange = [],
          fChannels = [\<lparr>fcName = ''a'', fcVersionRange = []\<rparr>], fSelectedBundles = []\<rparr>]\<rparr>"

section \<open>The filter on a store\<close>

text \<open>
  \<open>FilterCatalog\<close> takes a pointer to a catalog and returns one; a catalog holds slices,
  and a channel or a deprecation block holds the slice of its entries. Copying a
  channel copies the slice, not the entries, and \<open>slices.DeleteFunc\<close> works in place.
  What a call does to its input is therefore stated on a store: catalog objects and
  backing arrays at addresses. A slice is an address, or \<open>nil\<close>, and a length; its
  elements are the first \<open>sLen\<close> elements of the array at the address, as they are for the
  slices a decoder builds and for the ones this code derives with \<open>append\<close> and
  \<open>DeleteFunc\<close>. Strings and the \<open>Skips\<close> of an entry are never written and stay values.
  The index is private to the call and stays a value too; the channels it holds are
  copies of the channel records, with their slices.
\<close>

record slice =
  sArr :: "nat option"
  sLen :: nat

record hChannel =
  hcName :: string
  hcPackage :: string
  hcEntries :: slice

record hDeprecation =
  hdPackage :: string
  hdEntries :: slice

record hDeclarativeConfig =
  hPackages :: slice
  hChannels :: slice
  hBundles :: slice
  hDeprecations :: slice
  hOthers :: slice

record store =
  cfgs :: "nat \<rightharpoonup> hDeclarativeConfig"
  pkgArrs :: "nat \<rightharpoonup> declcfg_Package list"
  chArrs :: "nat \<rightharpoonup> hChannel list"
  entArrs :: "nat \<rightharpoonup> ChannelEntry list"
  bunArrs :: "nat \<rightharpoonup> Bundle list"
  depArrs :: "nat \<rightharpoonup> hDeprecation list"
  dentArrs :: "nat \<rightharpoonup> DeprecationEntry list"
  metaArrs :: "nat \<rightharpoonup> Meta list"
  nextAddr :: nat

definition nilSlice :: slice where
  "nilSlice = \<lparr>sArr = None, sLen = 0\<rparr>"




definition arrayAt :: "(nat \<rightharpoonup> 'a list) \<Rightarrow> nat \<Rightarrow> 'a list" where
  "arrayAt m a = (case m a of None \<Rightarrow> [] | Some xs \<Rightarrow> xs)"

definition sliceElems :: "(nat \<rightharpoonup> 'a list) \<Rightarrow> slice \<Rightarrow> 'a list" where
  "sliceElems m sl = (case sArr sl of None \<Rightarrow> [] | Some a \<Rightarrow> take (sLen sl) (arrayAt m a))"





subsection \<open>Slices in place\<close>



text \<open>
  A slice literal, and a slice built by \<open>append\<close> from an empty one, is a new array. The
  arrays that \<open>append\<close> leaves behind while it grows are unreachable, and the capacity
  beyond the length is never read.
\<close>

definition freshSlice :: "store \<Rightarrow> nat \<Rightarrow> slice" where
  "freshSlice s n = \<lparr>sArr = Some (nextAddr s), sLen = n\<rparr>"










subsection \<open>The functions of the filter, on the store\<close>


















subsection \<open>What a call may write\<close>



text \<open>
  \<open>frame n E D s s'\<close>: below the address \<open>n\<close>, the store \<open>s'\<close> is the store \<open>s\<close>, except for the
  entry arrays at the addresses \<open>E\<close> and the deprecation entry arrays at the addresses
  \<open>D\<close>.
\<close>

definition frame :: "nat \<Rightarrow> nat set \<Rightarrow> nat set \<Rightarrow> store \<Rightarrow> store \<Rightarrow> bool" where
  "frame n E D s s' =
     (\<forall>a < n. cfgs s' a = cfgs s a \<and> pkgArrs s' a = pkgArrs s a \<and> chArrs s' a = chArrs s a \<and>
              bunArrs s' a = bunArrs s a \<and> depArrs s' a = depArrs s a \<and>
              metaArrs s' a = metaArrs s a \<and>
              (a \<notin> E \<longrightarrow> entArrs s' a = entArrs s a) \<and>
              (a \<notin> D \<longrightarrow> dentArrs s' a = dentArrs s a))"




definition entOK :: "nat \<Rightarrow> nat set \<Rightarrow> slice \<Rightarrow> bool" where
  "entOK n E sl = (case sArr sl of None \<Rightarrow> True | Some a \<Rightarrow> a \<in> E \<or> n \<le> a)"







subsection \<open>A concrete store\<close>




section \<open>Properties\<close>

subsection \<open>Unfolding and evaluation\<close>

lemmas model_defs =
  NewMirrorFilter_def addPackage_def addChannels_def pkgConfigOf_def chConfigOf_def
  zeroPackageCfg_def zeroChannelCfg_def zeroEntry_def elems_def
  SchemaPackage_def SchemaChannel_def SchemaBundle_def TypePackage_def
  setHas_def setDefaultChannel_def hasInEdge_def channelHeads_def newChannel_def
  newOperatorIndex_def orEmpty_def getBundleVersion_def indexPackage_def indexEntry_def
  indexChannel_def indexBundle_def indexFromDeclCfg_def configured_def keepChannel_def
  filterByPackageAndChannels_def emptyDeclarativeConfig_def channelKey_def bundleKey_def
  BinarySearchFunc_def keepPackageDefaultChannel_def packageBody_def setInsert_def
  keepInsert_def bundleNames_def lookupEntry_def filterChannelHead_def
  effectiveVersionRange_def channelBody_def lookupBundle_def collectBundles_def
  deleteDeprecationEntry_def filterDeprecations_def FilterCatalog_def Let_def
  List.map_filter_def

lemmas example_defs =
  exampleExternals_def mkBundle_def mkEntry_def rangeConfig_def smallCatalog_def
  otherCatalog_def

lemmas example_defs2 = example_defs twoChannelCatalog_def channelConfig_def

lemma FilterCatalog_unfold:
  "FilterCatalog ext f (Some fbc) =
     (case indexFromDeclCfg ext (pruned f fbc) of
        Inl err \<Rightarrow> (Some (pruned f fbc), Some err)
      | Inr catalogIndex \<Rightarrow>
          (case packageLoop f 0 (Packages (pruned f fbc)) (pruned f fbc, catalogIndex) of
             Inl err \<Rightarrow> (None, Some err)
           | Inr st1 \<Rightarrow>
               (case channelLoop ext f (snd st1) 0 (elems (Channels (fst st1)))
                       (elems (Channels (fst st1)), []) of
                  Inl err \<Rightarrow> (None, Some err)
                | Inr st2 \<Rightarrow>
                    (if snd st2 \<noteq> []
                     then (Some (filterDeprecations
                             ((fst st1)\<lparr>Channels := map_option (\<lambda>_. fst st2) (Channels (fst st1)),
                                        Bundles := sort_key bundleKey (collectBundles (snd st1) (snd st2))\<rparr>)
                             (snd st1) (snd st2)), None)
                     else (Some ((fst st1)\<lparr>Channels := map_option (\<lambda>_. fst st2) (Channels (fst st1))\<rparr>),
                           None)))))"
  by (simp add: FilterCatalog_def pruned_def Let_def split: sum.splits)

subsection \<open>The package loop of a full filter\<close>

lemma packageBody_full:
  assumes "optsFull f" and "reconcilesPkg f index pkg"
  shows "\<exists>fbc'. packageBody f i pkg (fbc, index) = Inr (fbc', index) \<and> Channels fbc' = Channels fbc
      \<and> Bundles fbc' = Bundles fbc \<and> Deprecations fbc' = Deprecations fbc \<and> Others fbc' = Others fbc"
proof (cases "map_of (pkgConfigs f) (pName pkg)")
  case None
  then show ?thesis using assms by (simp add: packageBody_def)
next
  case (Some pkgConfig)
  with assms(2) obtain pkg' where
    "setDefaultChannel pkg pkgConfig (ixChannelNames index (pName pkg)) = Inr pkg'"
    by (cases "setDefaultChannel pkg pkgConfig (ixChannelNames index (pName pkg))")
       (auto simp: reconcilesPkg_def)
  with Some assms(1) show ?thesis by (simp add: packageBody_def Let_def)
qed

lemma packageLoop_full:
  "optsFull f \<Longrightarrow> list_all (reconcilesPkg f index) pkgs \<Longrightarrow>
   \<exists>fbc'. packageLoop f i pkgs (fbc, index) = Inr (fbc', index) \<and> Channels fbc' = Channels fbc
      \<and> Bundles fbc' = Bundles fbc \<and> Deprecations fbc' = Deprecations fbc \<and> Others fbc' = Others fbc"
proof (induction pkgs arbitrary: i fbc)
  case Nil
  then show ?case by simp
next
  case (Cons pkg rest)
  from Cons.prems have "reconcilesPkg f index pkg" and r: "list_all (reconcilesPkg f index) rest"
    by simp_all
  from packageBody_full[OF Cons.prems(1) this(1), of i fbc]
  obtain fbc1 where b: "packageBody f i pkg (fbc, index) = Inr (fbc1, index)"
    and c: "Channels fbc1 = Channels fbc" "Bundles fbc1 = Bundles fbc"
      "Deprecations fbc1 = Deprecations fbc" "Others fbc1 = Others fbc"
    by blast
  from Cons.IH[OF Cons.prems(1) r, of "Suc i" fbc1] b c show ?case by auto
qed

subsection \<open>A full filter and version ranges\<close>

lemma channelLoop_full_range:
  "optsFull f \<Longrightarrow> effectiveVersionRange f ch \<noteq> [] \<Longrightarrow>
   \<forall>c \<in> set cs1. fSelectedBundles (pkgConfigOf f (cPackage c)) = [] \<Longrightarrow>
   channelLoop ext f index i (cs1 @ ch # cs2) st = Inl ErrFullWithVersionRange"
proof (induction cs1 arbitrary: i st)
  case Nil
  then show ?case by (simp add: channelBody_def Let_def)
next
  case (Cons c cs1)
  have "channelBody ext f index i c st = Inl ErrFullWithVersionRange \<or>
        (\<exists>st'. channelBody ext f index i c st = Inr st')"
    using Cons.prems by (simp add: channelBody_def Let_def)
  then show ?case using Cons by auto
qed

text \<open>
  C5, as amended. The conflict is detected channel by channel: when the filter is
  full, the catalog is present, its pruned part is indexed without error and passes
  the default channel reconciliation, and some channel of the pruned catalog has a
  version range in effect (the one of its channel filter, else the one of its package
  filter) while no channel before it belongs to a package filtered by bundle
  selection, then \<open>FilterCatalog\<close> fails with
  \<open>Full: true cannot be mixed with versionRange\<close>.
\<close>

theorem full_with_versionRange_fails:
  assumes "optsFull f"
    and "indexFromDeclCfg ext (pruned f fbc) = Inr index"
    and "list_all (reconcilesPkg f index) (Packages (pruned f fbc))"
    and "elems (Channels (pruned f fbc)) = cs1 @ ch # cs2"
    and "effectiveVersionRange f ch \<noteq> []"
    and "\<forall>c \<in> set cs1. fSelectedBundles (pkgConfigOf f (cPackage c)) = []"
  shows "FilterCatalog ext f (Some fbc) = (None, Some ErrFullWithVersionRange)"
proof -
  from packageLoop_full[OF assms(1) assms(3), of 0 "pruned f fbc"]
  obtain fbc' where
    p: "packageLoop f 0 (Packages (pruned f fbc)) (pruned f fbc, index) = Inr (fbc', index)"
    and c: "Channels fbc' = Channels (pruned f fbc)" by blast
  have "channelLoop ext f index 0 (elems (Channels fbc')) (elems (Channels fbc'), []) =
          Inl ErrFullWithVersionRange"
    unfolding c assms(4) by (rule channelLoop_full_range[OF assms(1) assms(5) assms(6)])
  then show ?thesis
    by (simp add: FilterCatalog_unfold assms(2) p)
qed

text \<open>
  The theorem at a catalog with one package, whose filter has a version range.
\<close>

theorem full_with_versionRange_fails_witness:
  "optsFull (NewMirrorFilter rangeConfig True) \<and>
   FilterCatalog exampleExternals (NewMirrorFilter rangeConfig True) (Some smallCatalog) =
     (None, Some ErrFullWithVersionRange)"
proof -
  let ?f = "NewMirrorFilter rangeConfig True"
  let ?ch = "\<lparr>cName = ''a'', cPackage = ''p'',
              cEntries = [mkEntry ''x2'' ''x1'', mkEntry ''x1'' []]\<rparr>"
  have pr: "pruned ?f smallCatalog = smallCatalog"
    by (simp add: pruned_def model_defs example_defs)
  obtain index :: "string operatorIndex" where
    ix: "indexFromDeclCfg exampleExternals smallCatalog = Inr index"
    and names: "ixChannelNames index ''p'' = Some {''a''}"
    by (simp add: model_defs example_defs)
  have h1: "optsFull ?f" by (simp add: model_defs example_defs)
  have h3: "list_all (reconcilesPkg ?f index) (Packages (pruned ?f smallCatalog))"
    unfolding pr by (simp add: reconcilesPkg_def names model_defs example_defs)
  have h4: "elems (Channels (pruned ?f smallCatalog)) = [] @ ?ch # []"
    unfolding pr by (simp add: model_defs example_defs)
  have h5: "effectiveVersionRange ?f ?ch \<noteq> []"
    by (simp add: model_defs example_defs)
  have h6: "\<forall>c \<in> set []. fSelectedBundles (pkgConfigOf ?f (cPackage c)) = []" by simp
  show ?thesis
    using full_with_versionRange_fails[OF h1 _ h3 h4 h5 h6, of exampleExternals] ix pr h1
    by simp
qed

text \<open>
  The claim as stated fails: a full filter whose only package filter has a version
  range, on a catalog that does not hold that package, returns the empty catalog and no
  error.
\<close>

theorem full_with_versionRange_counterexample:
  "optsFull (NewMirrorFilter rangeConfig True) \<and>
   fVersionRange (pkgConfigOf (NewMirrorFilter rangeConfig True) ''p'') \<noteq> [] \<and>
   FilterCatalog exampleExternals (NewMirrorFilter rangeConfig True) (Some otherCatalog) =
     (Some emptyDeclarativeConfig, None)"
  by (simp add: model_defs example_defs)

subsection \<open>What the package loop leaves alone\<close>

lemma keepPackageDefaultChannel_frame:
  assumes "keepPackageDefaultChannel fbc pkg index = Inr st'"
  shows "Packages (fst st') = Packages fbc" and "Bundles (fst st') = Bundles fbc"
    and "Deprecations (fst st') = Deprecations fbc" and "Others (fst st') = Others fbc"
    and "ixChannelNames (snd st') = ixChannelNames index"
    and "ixChannelEntries (snd st') = ixChannelEntries index"
    and "ixBundlesByPkgAndName (snd st') = ixBundlesByPkgAndName index"
    and "ixBundleVersionsByPkgAndName (snd st') = ixBundleVersionsByPkgAndName index"
  using assms
  by (auto simp: keepPackageDefaultChannel_def Let_def split: if_splits option.splits)

lemma packageBody_frame:
  assumes "packageBody f i pkg st = Inr st'"
  shows "length (Packages (fst st')) = length (Packages (fst st))"
    and "j \<noteq> i \<Longrightarrow> Packages (fst st') ! j = Packages (fst st) ! j"
    and "Bundles (fst st') = Bundles (fst st)"
    and "Deprecations (fst st') = Deprecations (fst st)" and "Others (fst st') = Others (fst st)"
    and "ixChannelNames (snd st') = ixChannelNames (snd st)"
    and "ixChannelEntries (snd st') = ixChannelEntries (snd st)"
    and "ixBundlesByPkgAndName (snd st') = ixBundlesByPkgAndName (snd st)"
    and "ixBundleVersionsByPkgAndName (snd st') = ixBundleVersionsByPkgAndName (snd st)"
  using assms
  by (auto simp: packageBody_def Let_def
      split: if_splits option.splits sum.splits dest: keepPackageDefaultChannel_frame)

lemma packageLoop_frame:
  "packageLoop f i pkgs st = Inr st' \<Longrightarrow>
   length (Packages (fst st')) = length (Packages (fst st)) \<and>
   (\<forall>j < i. Packages (fst st') ! j = Packages (fst st) ! j) \<and>
   Bundles (fst st') = Bundles (fst st) \<and>
   Deprecations (fst st') = Deprecations (fst st) \<and> Others (fst st') = Others (fst st) \<and>
   ixChannelNames (snd st') = ixChannelNames (snd st) \<and>
   ixChannelEntries (snd st') = ixChannelEntries (snd st) \<and>
   ixBundlesByPkgAndName (snd st') = ixBundlesByPkgAndName (snd st) \<and>
   ixBundleVersionsByPkgAndName (snd st') = ixBundleVersionsByPkgAndName (snd st)"
proof (induction pkgs arbitrary: i st)
  case Nil
  then show ?case by simp
next
  case (Cons pkg rest)
  from Cons.prems obtain st1 where b: "packageBody f i pkg st = Inr st1"
    and l: "packageLoop f (Suc i) rest st1 = Inr st'"
    by (auto split: sum.splits)
  from Cons.IH[OF l] packageBody_frame[OF b] show ?case by auto
qed

lemma packageLoop_append:
  "packageLoop f i (xs @ ys) st =
     (case packageLoop f i xs st of
        Inl err \<Rightarrow> Inl err
      | Inr st' \<Rightarrow> packageLoop f (i + length xs) ys st')"
  by (induction xs arbitrary: i st) (auto split: sum.splits)

lemma packageBody_reconcile_fails:
  assumes "map_of (pkgConfigs f) (pName pkg) = Some pkgConfig"
    and "setDefaultChannel pkg pkgConfig (ixChannelNames (snd st) (pName pkg)) = Inl err"
  shows "packageBody f i pkg st = Inl (ErrInvalidDefaultChannelConfiguration (pName pkg) err)"
  using assms by (simp add: packageBody_def)

lemma packageBody_reconcile_ok:
  assumes "map_of (pkgConfigs f) (pName pkg) = Some pkgConfig"
    and "setDefaultChannel pkg pkgConfig (ixChannelNames (snd st) (pName pkg)) = Inr pkg'"
    and "packageBody f i pkg st = Inr st'"
    and "i < length (Packages (fst st))"
  shows "pDefaultChannel (Packages (fst st') ! i) = pDefaultChannel pkg'"
  using assms
  by (auto simp: packageBody_def Let_def split: if_splits sum.splits
      dest: keepPackageDefaultChannel_frame(1))

lemma FilterCatalog_success:
  assumes "FilterCatalog ext f (Some fbc) = (Some out, None)"
  shows "\<exists>index st1 st2.
           indexFromDeclCfg ext (pruned f fbc) = Inr index \<and>
           packageLoop f 0 (Packages (pruned f fbc)) (pruned f fbc, index) = Inr st1 \<and>
           channelLoop ext f (snd st1) 0 (elems (Channels (fst st1)))
             (elems (Channels (fst st1)), []) = Inr st2 \<and>
           out = (if snd st2 \<noteq> []
                  then filterDeprecations
                         ((fst st1)\<lparr>Channels := map_option (\<lambda>_. fst st2) (Channels (fst st1)),
                                    Bundles := sort_key bundleKey (collectBundles (snd st1) (snd st2))\<rparr>)
                         (snd st1) (snd st2)
                  else (fst st1)\<lparr>Channels := map_option (\<lambda>_. fst st2) (Channels (fst st1))\<rparr>)"
proof -
  from assms obtain index where 1: "indexFromDeclCfg ext (pruned f fbc) = Inr index"
    by (cases "indexFromDeclCfg ext (pruned f fbc)") (auto simp: FilterCatalog_unfold)
  from assms 1 obtain st1 where
    2: "packageLoop f 0 (Packages (pruned f fbc)) (pruned f fbc, index) = Inr st1"
    by (cases "packageLoop f 0 (Packages (pruned f fbc)) (pruned f fbc, index)")
       (auto simp: FilterCatalog_unfold)
  from assms 1 2 obtain st2 where
    3: "channelLoop ext f (snd st1) 0 (elems (Channels (fst st1)))
          (elems (Channels (fst st1)), []) = Inr st2"
    by (cases "channelLoop ext f (snd st1) 0 (elems (Channels (fst st1)))
          (elems (Channels (fst st1)), [])") (auto simp: FilterCatalog_unfold)
  from assms 1 2 3 have
    "out = (if snd st2 \<noteq> []
            then filterDeprecations
                   ((fst st1)\<lparr>Channels := map_option (\<lambda>_. fst st2) (Channels (fst st1)),
                              Bundles := sort_key bundleKey (collectBundles (snd st1) (snd st2))\<rparr>)
                   (snd st1) (snd st2)
            else (fst st1)\<lparr>Channels := map_option (\<lambda>_. fst st2) (Channels (fst st1))\<rparr>)"
    by (simp add: FilterCatalog_unfold split: if_splits)
  with 1 2 3 show ?thesis by blast
qed

lemma FilterCatalog_success_Packages:
  assumes "FilterCatalog ext f (Some fbc) = (Some out, None)"
    and "indexFromDeclCfg ext (pruned f fbc) = Inr index"
  shows "\<exists>st1. packageLoop f 0 (Packages (pruned f fbc)) (pruned f fbc, index) = Inr st1 \<and>
           Packages out = Packages (fst st1)"
  using FilterCatalog_success[OF assms(1)] assms(2)
  by (auto simp: filterDeprecations_def)

subsection \<open>What the index holds\<close>

lemma indexBundle_lookup:
  assumes "indexBundle ext index b = Inr index'"
  shows "lookupBundle index' p n =
           (case lookupBundle index p n of
              Some x \<Rightarrow> Some x
            | None \<Rightarrow> if bPackage b = p \<and> bName b = n then Some b else None)"
    and "ixChannelNames index' = ixChannelNames index"
    and "ixChannels index' = ixChannels index"
    and "ixChannelEntries index' = ixChannelEntries index"
proof -
  from assms obtain v where v: "getBundleVersion ext b = Inr v"
    by (cases "getBundleVersion ext b") (simp_all add: indexBundle_def)
  define bm where "bm = orEmpty (ixBundlesByPkgAndName index (bPackage b))"
  define bm' where "bm' = (case bm (bName b) of None \<Rightarrow> bm(bName b \<mapsto> b) | Some _ \<Rightarrow> bm)"
  from assms v have eq:
    "index' = index\<lparr>ixBundlesByPkgAndName := (ixBundlesByPkgAndName index)(bPackage b \<mapsto> bm'),
                    ixBundleVersionsByPkgAndName :=
                      (ixBundleVersionsByPkgAndName index)(bPackage b \<mapsto>
                         (orEmpty (ixBundleVersionsByPkgAndName index (bPackage b)))(bName b \<mapsto> v))\<rparr>"
    unfolding bm'_def bm_def by (auto simp add: indexBundle_def Let_def)
  show "ixChannelNames index' = ixChannelNames index" "ixChannels index' = ixChannels index"
    "ixChannelEntries index' = ixChannelEntries index"
    by (simp_all add: eq)
  show "lookupBundle index' p n =
           (case lookupBundle index p n of
              Some x \<Rightarrow> Some x
            | None \<Rightarrow> if bPackage b = p \<and> bName b = n then Some b else None)"
  proof (cases "bPackage b = p")
    case False
    then show ?thesis by (simp add: eq lookupBundle_def split: option.splits)
  next
    case True
    have l: "lookupBundle index p n = bm n" by (simp add: lookupBundle_def bm_def True)
    have l': "lookupBundle index' p n = bm' n" by (simp add: lookupBundle_def eq True orEmpty_def)
    show ?thesis unfolding l l' using True
      by (cases "bm (bName b)") (auto simp: bm'_def split: option.splits)
  qed
qed

lemma indexBundles_lookup:
  "indexBundles ext index bs = Inr index' \<Longrightarrow>
   lookupBundle index' p n =
     (case lookupBundle index p n of
        Some x \<Rightarrow> Some x
      | None \<Rightarrow> find (\<lambda>b. bPackage b = p \<and> bName b = n) bs) \<and>
   ixChannelNames index' = ixChannelNames index \<and>
   ixChannels index' = ixChannels index \<and>
   ixChannelEntries index' = ixChannelEntries index"
proof (induction bs arbitrary: index)
  case Nil
  then show ?case by (simp split: option.splits)
next
  case (Cons b bs)
  from Cons.prems obtain index1 where 1: "indexBundle ext index b = Inr index1"
    and 2: "indexBundles ext index1 bs = Inr index'"
    by (auto split: sum.splits)
  from Cons.IH[OF 2] indexBundle_lookup(1)[OF 1, of p n] indexBundle_lookup(2-4)[OF 1]
  show ?case
    by (auto split: option.splits)
qed

lemma indexChannel_names:
  "ixChannelNames (indexChannel index c) p =
     (if cPackage c = p
      then Some (insert (cName c) (case ixChannelNames index p of None \<Rightarrow> {} | Some S \<Rightarrow> S))
      else ixChannelNames index p)"
  by (simp add: indexChannel_def)

lemma indexChannel_bundles:
  "ixBundlesByPkgAndName (indexChannel index c) = ixBundlesByPkgAndName index"
  by (simp add: indexChannel_def)

lemma foldl_indexChannel_names:
  "ixChannelNames (foldl indexChannel index chs) p =
     (if filter (\<lambda>ch. cPackage ch = p) chs = [] then ixChannelNames index p
      else Some (set (map cName (filter (\<lambda>ch. cPackage ch = p) chs)) \<union>
                 (case ixChannelNames index p of None \<Rightarrow> {} | Some S \<Rightarrow> S)))"
  by (induction chs arbitrary: index) (auto simp: indexChannel_names split: option.splits)

lemma foldl_indexChannel_bundles:
  "ixBundlesByPkgAndName (foldl indexChannel index chs) = ixBundlesByPkgAndName index"
  by (induction chs arbitrary: index) (simp_all add: indexChannel_bundles)

lemma foldl_indexPackage_other:
  "ixChannelNames (foldl indexPackage index ps) = ixChannelNames index"
  "ixBundlesByPkgAndName (foldl indexPackage index ps) = ixBundlesByPkgAndName index"
  by (induction ps arbitrary: index) (simp_all add: indexPackage_def)

lemma index_lookupBundle:
  fixes index :: "'v operatorIndex"
  assumes "indexFromDeclCfg ext fbc = Inr index"
  shows "lookupBundle index p n = firstBundle fbc p n"
proof -
  let ?i0 = "foldl indexChannel
               (foldl indexPackage (newOperatorIndex :: 'v operatorIndex) (Packages fbc))
               (elems (Channels fbc))"
  have "lookupBundle ?i0 p n = None"
    by (simp add: lookupBundle_def foldl_indexChannel_bundles foldl_indexPackage_other
        newOperatorIndex_def orEmpty_def)
  with indexBundles_lookup[OF assms[unfolded indexFromDeclCfg_def], of p n]
  show ?thesis by (simp add: firstBundle_def)
qed

lemma index_channelNames:
  fixes index :: "'v operatorIndex"
  assumes "indexFromDeclCfg ext fbc = Inr index"
  shows "ixChannelNames index p =
           (if channelNames fbc p = {} then None else Some (channelNames fbc p))"
proof -
  have "ixChannelNames index =
          ixChannelNames
            (foldl indexChannel
               (foldl indexPackage (newOperatorIndex :: 'v operatorIndex) (Packages fbc))
               (elems (Channels fbc)))"
    using indexBundles_lookup[OF assms[unfolded indexFromDeclCfg_def]] by simp
  then show ?thesis
    by (auto simp add: foldl_indexChannel_names foldl_indexPackage_other newOperatorIndex_def
        channelNames_def filter_empty_conv)
qed

lemma firstBundle_key:
  "firstBundle fbc p n = Some b \<Longrightarrow> bPackage b = p \<and> bName b = n \<and> b \<in> set (Bundles fbc)"
  by (auto simp: firstBundle_def find_Some_iff)

subsection \<open>The set of kept bundle names\<close>

lemma setInsert_set: "set (setInsert s names) = set s \<union> set names"
  by (induction names arbitrary: s) (auto simp: setInsert_def)

lemma setInsert_distinct: "distinct s \<Longrightarrow> distinct (setInsert s names)"
  by (induction names arbitrary: s) (auto simp: setInsert_def)

lemma setInsert_append: "setInsert (setInsert s xs) ys = setInsert s (xs @ ys)"
  by (simp add: setInsert_def)

lemma setInsert_Nil: "setInsert s [] = s"
  by (simp add: setInsert_def)

lemma keepInsert_map_of:
  "map_of (keepInsert kb p names) q =
     (if q = p then Some (setInsert (case map_of kb p of None \<Rightarrow> [] | Some s \<Rightarrow> s) names)
      else map_of kb q)"
  by (simp add: keepInsert_def update_conv)

lemma keepInsert_distinct: "distinct (map fst kb) \<Longrightarrow> distinct (map fst (keepInsert kb p names))"
  by (simp add: keepInsert_def distinct_update)

lemma foldl_keepInsert_map_of:
  "map_of (foldl (\<lambda>kb entry. keepInsert kb p [eName entry]) kb es) q =
     (if q = p \<and> es \<noteq> []
      then Some (setInsert (case map_of kb p of None \<Rightarrow> [] | Some s \<Rightarrow> s) (map eName es))
      else map_of kb q)"
proof (induction es arbitrary: kb)
  case Nil
  then show ?case by simp
next
  case (Cons e es)
  show ?case
    by (cases "es = []")
       (simp_all add: Cons.IH keepInsert_map_of setInsert_append)
qed

lemma foldl_keepInsert_distinct:
  "distinct (map fst kb) \<Longrightarrow>
   distinct (map fst (foldl (\<lambda>kb entry. keepInsert kb p [eName entry]) kb es))"
  by (induction es arbitrary: kb) (simp_all add: keepInsert_distinct)

lemma keepEntriesOf_map_of:
  "map_of (keepEntriesOf kb ch) q =
     (if q = cPackage ch \<and> cEntries ch \<noteq> []
      then Some (setInsert (case map_of kb q of None \<Rightarrow> [] | Some s \<Rightarrow> s)
                   (map eName (cEntries ch)))
      else map_of kb q)"
  unfolding keepEntriesOf_def by (simp add: foldl_keepInsert_map_of)

lemma keepEntriesOf_distinct:
  "distinct (map fst kb) \<Longrightarrow> distinct (map fst (keepEntriesOf kb ch))"
  unfolding keepEntriesOf_def by (rule foldl_keepInsert_distinct)

lemma keepAll_map_of:
  "map_of (foldl keepEntriesOf kb chs) q =
     (let ns = concat (map (\<lambda>ch. map eName (cEntries ch)) (filter (\<lambda>ch. cPackage ch = q) chs))
      in if ns = [] then map_of kb q
         else Some (setInsert (case map_of kb q of None \<Rightarrow> [] | Some s \<Rightarrow> s) ns))"
proof (induction chs arbitrary: kb)
  case Nil
  then show ?case by simp
next
  case (Cons ch chs)
  define ns where
    "ns = concat (map (\<lambda>ch. map eName (cEntries ch)) (filter (\<lambda>ch. cPackage ch = q) chs))"
  have IH: "map_of (foldl keepEntriesOf (keepEntriesOf kb ch) chs) q =
          (if ns = [] then map_of (keepEntriesOf kb ch) q
           else Some (setInsert (case map_of (keepEntriesOf kb ch) q of
                                   None \<Rightarrow> [] | Some s \<Rightarrow> s) ns))"
    using Cons.IH[of "keepEntriesOf kb ch", unfolded Let_def, folded ns_def] .
  show ?case
  proof (cases "q = cPackage ch \<and> cEntries ch \<noteq> []")
    case True
    then have q: "cPackage ch = q" and ne: "cEntries ch \<noteq> []" by simp_all
    show ?thesis
      by (simp add: IH keepEntriesOf_map_of Let_def q ne ns_def[symmetric] setInsert_append
          setInsert_Nil)
  next
    case False
    then have "map_of (keepEntriesOf kb ch) q = map_of kb q"
      by (auto simp add: keepEntriesOf_map_of)
    moreover from False have
      "concat (map (\<lambda>ch. map eName (cEntries ch)) (filter (\<lambda>c. cPackage c = q) (ch # chs))) = ns"
      by (auto simp: ns_def)
    ultimately show ?thesis
      by (simp only: foldl_Cons IH Let_def)
  qed
qed

lemma keepAll_distinct:
  "distinct (map fst kb) \<Longrightarrow> distinct (map fst (foldl keepEntriesOf kb chs))"
  by (induction chs arbitrary: kb) (simp_all add: keepEntriesOf_distinct)

subsection \<open>The loops of a full filter without version ranges and bundle selections\<close>

lemma channelBody_full_plain:
  assumes "optsFull f" and "effectiveVersionRange f ch = []"
    and "fSelectedBundles (pkgConfigOf f (cPackage ch)) = []"
  shows "channelBody ext f index i ch (chans, kb) = Inr (chans, keepEntriesOf kb ch)"
  using assms by (simp add: channelBody_def keepEntriesOf_def)

lemma channelLoop_full_plain:
  "optsFull f \<Longrightarrow>
   \<forall>ch \<in> set chs. effectiveVersionRange f ch = [] \<and>
                  fSelectedBundles (pkgConfigOf f (cPackage ch)) = [] \<Longrightarrow>
   channelLoop ext f index i chs (chans, kb) = Inr (chans, foldl keepEntriesOf kb chs)"
  by (induction chs arbitrary: i kb) (simp_all add: channelBody_full_plain)

lemma noConfig_eval:
  "NewMirrorFilter \<lparr>cfgPackages = []\<rparr> full = \<lparr>pkgConfigs = [], chConfigs = [], optsFull = full\<rparr>"
  by (simp add: NewMirrorFilter_def)

lemma noConfig_plain:
  "effectiveVersionRange (NewMirrorFilter \<lparr>cfgPackages = []\<rparr> full) ch = []"
  "fSelectedBundles (pkgConfigOf (NewMirrorFilter \<lparr>cfgPackages = []\<rparr> full) p) = []"
  "pruned (NewMirrorFilter \<lparr>cfgPackages = []\<rparr> full) fbc = fbc"
  by (simp_all add: noConfig_eval effectiveVersionRange_def chConfigOf_def pkgConfigOf_def
      zeroChannelCfg_def zeroPackageCfg_def pruned_def)

lemma packageLoop_noConfig_full:
  "packageLoop (NewMirrorFilter \<lparr>cfgPackages = []\<rparr> True) i pkgs st = Inr st"
  by (induction pkgs arbitrary: i) (simp_all add: packageBody_def noConfig_eval)

subsection \<open>The bundles that are collected\<close>

lemma set_map_filter: "set (List.map_filter g xs) = {y. \<exists>x \<in> set xs. g x = Some y}"
  by (induction xs) (auto simp: List.map_filter_simps split: option.splits)

lemma collectBundles_set:
  "b \<in> set (collectBundles index kb) \<longleftrightarrow>
     (\<exists>kv \<in> set kb. \<exists>n \<in> set (snd kv). lookupBundle index (fst kv) n = Some b)"
  by (simp add: collectBundles_def set_map_filter)

lemma map_filter_keys:
  assumes "\<And>n b. g n = Some b \<Longrightarrow> bundleKey b = (p, n)"
  shows "map bundleKey (List.map_filter g s) = map (Pair p) (filter (\<lambda>n. g n \<noteq> None) s)"
  using assms by (induction s) (auto simp: List.map_filter_simps split: option.splits)

lemma collectBundles_distinct:
  assumes "\<And>p n b. lookupBundle index p n = Some b \<Longrightarrow> bundleKey b = (p, n)"
  shows "distinct (map fst kb) \<Longrightarrow> \<forall>kv \<in> set kb. distinct (snd kv) \<Longrightarrow>
         distinct (map bundleKey (collectBundles index kb)) \<and>
         fst ` set (map bundleKey (collectBundles index kb)) \<subseteq> fst ` set kb"
proof (induction kb)
  case Nil
  then show ?case by (simp add: collectBundles_def)
next
  case (Cons kv kb)
  obtain p s where kv: "kv = (p, s)" by (cases kv)
  define KA where "KA = map bundleKey (List.map_filter (lookupBundle index p) s)"
  define KB where "KB = map bundleKey (collectBundles index kb)"
  have keys: "KA = map (Pair p) (filter (\<lambda>n. lookupBundle index p n \<noteq> None) s)"
    unfolding KA_def by (rule map_filter_keys) (rule assms)
  have split: "map bundleKey (collectBundles index (kv # kb)) = KA @ KB"
    by (simp add: collectBundles_def kv KA_def KB_def)
  from Cons.prems have d: "distinct s" and p: "p \<notin> fst ` set kb"
    and dk: "distinct (map fst kb)" and ds: "\<forall>kv \<in> set kb. distinct (snd kv)"
    by (simp_all add: kv)
  from Cons.IH[OF dk ds] have IH: "distinct KB" "fst ` set KB \<subseteq> fst ` set kb"
    by (simp_all add: KB_def)
  have d1: "distinct KA"
    unfolding keys using d by (simp add: distinct_map inj_on_def)
  have sub: "fst ` set KA \<subseteq> {p}"
    unfolding keys by auto
  have disj: "set KA \<inter> set KB = {}"
  proof (rule ccontr)
    assume "set KA \<inter> set KB \<noteq> {}"
    then obtain x where "x \<in> set KA" "x \<in> set KB" by blast
    with sub IH(2) have "fst x = p" "fst x \<in> fst ` set kb" by auto
    with p show False by simp
  qed
  have "distinct (KA @ KB)" using d1 IH(1) disj by simp
  moreover have "fst ` set (KA @ KB) \<subseteq> fst ` set (kv # kb)"
    using sub IH(2) by (auto simp: kv)
  ultimately show ?case unfolding split by simp
qed

lemma sort_key_distinct_keys:
  "distinct (map k (sort_key k xs)) = distinct (map k xs)"
  by (simp add: distinct_map)

lemma sorted_distinct_keys_unique:
  assumes "sorted (map k xs)" "distinct (map k xs)" "sorted (map k ys)" "distinct (map k ys)"
    and "set xs = set ys"
  shows "xs = ys"
proof -
  have "set (map k xs) = set (map k ys)" using assms(5) by simp
  with assms(1-4) have "map k xs = map k ys" by (rule sorted_distinct_set_unique)
  moreover have "inj_on k (set xs \<union> set ys)"
    using assms(2,5) by (simp add: distinct_map)
  ultimately show ?thesis by (rule inj_on_map_eq_map[THEN iffD1, rotated])
qed

subsection \<open>A full filter without configuration\<close>

lemma keepAll_lookup:
  fixes fbc :: DeclarativeConfig
  defines "kb \<equiv> foldl keepEntriesOf [] (elems (Channels fbc))"
  shows "map_of kb q = None \<longleftrightarrow> entryNames fbc q = {}"
    and "map_of kb q = Some s \<Longrightarrow> set s = entryNames fbc q \<and> distinct s \<and> entryNames fbc q \<noteq> {}"
proof -
  define ns where
    "ns = concat (map (\<lambda>ch. map eName (cEntries ch))
                    (filter (\<lambda>ch. cPackage ch = q) (elems (Channels fbc))))"
  have m: "map_of kb q = (if ns = [] then None else Some (setInsert [] ns))"
    unfolding kb_def keepAll_map_of Let_def ns_def by simp
  have e: "entryNames fbc q = set ns" by (simp add: entryNames_def ns_def)
  show "map_of kb q = None \<longleftrightarrow> entryNames fbc q = {}"
    unfolding m e by simp
  show "map_of kb q = Some s \<Longrightarrow> set s = entryNames fbc q \<and> distinct s \<and> entryNames fbc q \<noteq> {}"
    unfolding m e by (auto simp: setInsert_set setInsert_distinct split: if_splits)
qed

lemma keepAll_empty:
  fixes fbc :: DeclarativeConfig
  shows "foldl keepEntriesOf [] (elems (Channels fbc)) = [] \<longleftrightarrow>
     (\<forall>ch \<in> set (elems (Channels fbc)). cEntries ch = [])"
proof -
  let ?kb = "foldl keepEntriesOf [] (elems (Channels fbc))"
  have "?kb = [] \<longleftrightarrow> (\<forall>q. map_of ?kb q = None)"
    by (metis map_of_eq_empty_iff)
  also have "\<dots> \<longleftrightarrow> (\<forall>q. entryNames fbc q = {})"
    by (simp add: keepAll_lookup(1))
  also have "\<dots> \<longleftrightarrow> (\<forall>ch \<in> set (elems (Channels fbc)). cEntries ch = [])"
    by (auto simp: entryNames_def)
  finally show ?thesis .
qed

lemma schemas_differ: "SchemaBundle \<noteq> SchemaChannel"
  by (simp add: SchemaBundle_def SchemaChannel_def)

lemma deleteDeprecationEntry_full:
  fixes index :: "'v operatorIndex"
  assumes "indexFromDeclCfg ext fbc = Inr index"
  shows "deleteDeprecationEntry index (foldl keepEntriesOf [] (elems (Channels fbc))) d e \<longleftrightarrow>
           \<not> keptByFull fbc d e"
proof -
  let ?kb = "foldl keepEntriesOf [] (elems (Channels fbc))"
  have b: "(case map_of ?kb (dPackage d) of None \<Rightarrow> False | Some bundles \<Rightarrow> rName e \<notin> set bundles) \<longleftrightarrow>
             entryNames fbc (dPackage d) \<noteq> {} \<and> rName e \<notin> entryNames fbc (dPackage d)"
    using keepAll_lookup[of fbc "dPackage d"]
    by (cases "map_of ?kb (dPackage d)") auto
  have c: "(case ixChannelNames index (dPackage d) of None \<Rightarrow> False | Some channels \<Rightarrow> rName e \<notin> channels) \<longleftrightarrow>
             channelNames fbc (dPackage d) \<noteq> {} \<and> rName e \<notin> channelNames fbc (dPackage d)"
    by (simp add: index_channelNames[OF assms])
  show ?thesis
    unfolding deleteDeprecationEntry_def keptByFull_def b c using schemas_differ by auto
qed

text \<open>
  C2, as amended. A full filter without configuration, on a catalog whose bundles all
  have a version that parses, returns no error and a catalog with the packages, the
  channels (with their entries) and the others of the input. When no channel has an
  entry, the bundles and the deprecations are the input's too. Otherwise the bundles
  are rebuilt: they are the input bundles that an entry of a channel of their package
  names, the first of each package and name, sorted by package and name; and every
  deprecation block keeps its entries except the bundle entries that no entry of the
  package's channels names, when there are such entries, and the channel entries that
  name no channel of the package, when it has channels. In particular the bundles are
  the input's, in the same order, when those are sorted by package and name without
  repetition and are all named by entries.
\<close>

theorem full_without_configuration:
  fixes ext :: "('c, 'v) externals" and index :: "'v operatorIndex"
  assumes "indexFromDeclCfg ext fbc = Inr index"
  shows "\<exists>out. FilterCatalog ext (NewMirrorFilter \<lparr>cfgPackages = []\<rparr> True) (Some fbc) =
                 (Some out, None) \<and>
           Packages out = Packages fbc \<and> Channels out = Channels fbc \<and> Others out = Others fbc \<and>
           (if \<forall>ch \<in> set (elems (Channels fbc)). cEntries ch = []
            then Bundles out = Bundles fbc \<and> Deprecations out = Deprecations fbc
            else sorted (map bundleKey (Bundles out)) \<and> distinct (map bundleKey (Bundles out)) \<and>
                 set (Bundles out) = namedBundles fbc \<and>
                 Deprecations out =
                   map (\<lambda>d. d\<lparr>dEntries := filter (keptByFull fbc d) (dEntries d)\<rparr>)
                     (Deprecations fbc)) \<and>
           (sorted (map bundleKey (Bundles fbc)) \<and> distinct (map bundleKey (Bundles fbc)) \<and>
            (\<forall>b \<in> set (Bundles fbc). bName b \<in> entryNames fbc (bPackage b)) \<longrightarrow>
              Bundles out = Bundles fbc)"
proof -
  let ?f = "NewMirrorFilter \<lparr>cfgPackages = []\<rparr> True"
  define chs where "chs = elems (Channels fbc)"
  define kb where "kb = foldl keepEntriesOf [] chs"
  define collected where "collected = sort_key bundleKey (collectBundles index kb)"
  have full: "optsFull ?f" by (simp add: noConfig_eval)
  have cl: "channelLoop ext ?f index 0 chs (chs, []) = Inr (chs, kb)"
    unfolding kb_def by (rule channelLoop_full_plain[OF full]) (simp add: noConfig_plain)
  have chans: "map_option (\<lambda>_. chs) (Channels fbc) = Channels fbc"
    by (cases "Channels fbc") (simp_all add: chs_def elems_def)
  have res: "FilterCatalog ext ?f (Some fbc) =
               (if kb \<noteq> []
                then (Some (filterDeprecations (fbc\<lparr>Bundles := collected\<rparr>) index kb), None)
                else (Some fbc, None))"
    by (simp add: FilterCatalog_unfold noConfig_plain assms packageLoop_noConfig_full
        cl[unfolded chs_def] chans[unfolded chs_def] collected_def)
  have key: "bundleKey b = (p, n)" if "lookupBundle index p n = Some b" for p n b
    using that firstBundle_key[of fbc p n b]
    by (simp add: index_lookupBundle[OF assms] bundleKey_def)
  have dk: "distinct (map fst kb)"
    unfolding kb_def by (rule keepAll_distinct) simp
  have kv: "set (snd kv) = entryNames fbc (fst kv) \<and> distinct (snd kv)" if "kv \<in> set kb" for kv
  proof -
    from that dk have "map_of kb (fst kv) = Some (snd kv)" by simp
    then show ?thesis using keepAll_lookup(2)[of fbc "fst kv" "snd kv"]
      by (simp add: kb_def chs_def)
  qed
  have sorted: "sorted (map bundleKey collected)"
    by (simp add: collected_def)
  have "distinct (map bundleKey (collectBundles index kb))"
    using collectBundles_distinct[of index kb, OF key dk] kv by blast
  then have distinct: "distinct (map bundleKey collected)"
    by (simp add: collected_def sort_key_distinct_keys)
  have set: "set collected = namedBundles fbc"
  proof (rule set_eqI)
    fix b
    have "b \<in> set collected \<longleftrightarrow>
            (\<exists>kv \<in> set kb. \<exists>n \<in> set (snd kv). firstBundle fbc (fst kv) n = Some b)"
      by (simp add: collected_def collectBundles_set index_lookupBundle[OF assms])
    also have "\<dots> \<longleftrightarrow> b \<in> namedBundles fbc"
    proof
      assume "\<exists>kv \<in> set kb. \<exists>n \<in> set (snd kv). firstBundle fbc (fst kv) n = Some b"
      then obtain kv' n where a: "kv' \<in> set kb" "n \<in> set (snd kv')"
        "firstBundle fbc (fst kv') n = Some b" by blast
      from firstBundle_key[OF a(3)] have k: "bPackage b = fst kv'" "bName b = n"
        "b \<in> set (Bundles fbc)" by simp_all
      from kv[OF a(1)] a(2) have "n \<in> entryNames fbc (fst kv')" by simp
      with a(3) k show "b \<in> namedBundles fbc" by (simp add: namedBundles_def)
    next
      assume "b \<in> namedBundles fbc"
      then have f: "firstBundle fbc (bPackage b) (bName b) = Some b"
        and e: "bName b \<in> entryNames fbc (bPackage b)" by (simp_all add: namedBundles_def)
      from e have "map_of kb (bPackage b) \<noteq> None"
        using keepAll_lookup(1)[of fbc "bPackage b"] by (auto simp: kb_def chs_def)
      then obtain s where s: "map_of kb (bPackage b) = Some s" by blast
      then have m: "(bPackage b, s) \<in> set kb" by (rule map_of_SomeD)
      from kv[OF m] e have "bName b \<in> set s" by simp
      with m f show "\<exists>kv \<in> set kb. \<exists>n \<in> set (snd kv). firstBundle fbc (fst kv) n = Some b"
        by force
    qed
    finally show "b \<in> set collected \<longleftrightarrow> b \<in> namedBundles fbc" .
  qed
  have deps: "Deprecations (filterDeprecations (fbc\<lparr>Bundles := collected\<rparr>) index kb) =
                map (\<lambda>d. d\<lparr>dEntries := filter (keptByFull fbc d) (dEntries d)\<rparr>) (Deprecations fbc)"
    by (simp add: filterDeprecations_def kb_def chs_def deleteDeprecationEntry_full[OF assms])
  have empty: "kb = [] \<longleftrightarrow> (\<forall>ch \<in> set (elems (Channels fbc)). cEntries ch = [])"
    unfolding kb_def chs_def by (rule keepAll_empty)
  have same: "collected = Bundles fbc"
    if "sorted (map bundleKey (Bundles fbc))" "distinct (map bundleKey (Bundles fbc))"
      "\<forall>b \<in> set (Bundles fbc). bName b \<in> entryNames fbc (bPackage b)"
  proof (rule sorted_distinct_keys_unique[OF sorted distinct that(1,2)])
    have "firstBundle fbc (bPackage b) (bName b) = Some b" if b: "b \<in> set (Bundles fbc)" for b
    proof -
      from b obtain b' where f: "firstBundle fbc (bPackage b) (bName b) = Some b'"
        by (cases "firstBundle fbc (bPackage b) (bName b)")
           (auto simp: firstBundle_def find_None_iff)
      from firstBundle_key[OF f] have "bundleKey b' = bundleKey b" "b' \<in> set (Bundles fbc)"
        by (simp_all add: bundleKey_def)
      with \<open>distinct (map bundleKey (Bundles fbc))\<close> b have "b' = b"
        by (auto simp: distinct_map inj_on_def)
      with f show ?thesis by simp
    qed
    with that(3) show "set collected = set (Bundles fbc)"
      unfolding set by (auto simp: namedBundles_def)
  qed
  show ?thesis
  proof (cases "kb = []")
    case True
    with empty res show ?thesis by simp
  next
    case False
    let ?out = "filterDeprecations (fbc\<lparr>Bundles := collected\<rparr>) index kb"
    from False empty have ne: "\<not> (\<forall>ch \<in> set (elems (Channels fbc)). cEntries ch = [])"
      by simp
    have r: "FilterCatalog ext ?f (Some fbc) = (Some ?out, None)"
      using res False by simp
    have frame: "Packages ?out = Packages fbc" "Channels ?out = Channels fbc"
      "Others ?out = Others fbc" "Bundles ?out = collected"
      by (simp_all add: filterDeprecations_def)
    have "sorted (map bundleKey (Bundles fbc)) \<and> distinct (map bundleKey (Bundles fbc)) \<and>
          (\<forall>b \<in> set (Bundles fbc). bName b \<in> entryNames fbc (bPackage b)) \<longrightarrow>
            collected = Bundles fbc"
      using same by blast
    then show ?thesis
      unfolding r if_not_P[OF ne]
      by (intro exI[of _ ?out]) (simp only: frame deps sorted distinct set simp_thms)
  qed
qed

text \<open>
  The theorem at a catalog with one channel of two entries, whose two bundles are not
  in the order of their names.
\<close>

theorem full_without_configuration_witness:
  "\<exists>out. FilterCatalog exampleExternals (NewMirrorFilter \<lparr>cfgPackages = []\<rparr> True)
           (Some smallCatalog) = (Some out, None) \<and>
         Packages out = Packages smallCatalog \<and> Channels out = Channels smallCatalog \<and>
         Others out = Others smallCatalog \<and>
         sorted (map bundleKey (Bundles out)) \<and>
         set (Bundles out) = set (Bundles smallCatalog) \<and>
         Deprecations out = Deprecations smallCatalog"
proof -
  obtain index :: "string operatorIndex" where
    ix: "indexFromDeclCfg exampleExternals smallCatalog = Inr index"
    by (simp add: model_defs example_defs)
  have ne: "\<not> (\<forall>ch \<in> set (elems (Channels smallCatalog)). cEntries ch = [])"
    by (simp add: smallCatalog_def elems_def)
  have nb: "namedBundles smallCatalog = set (Bundles smallCatalog)"
    by (simp add: namedBundles_def firstBundle_def entryNames_def smallCatalog_def elems_def
        mkBundle_def mkEntry_def)
  have dp: "Deprecations smallCatalog = []" by (simp add: smallCatalog_def)
  from full_without_configuration[OF ix] show ?thesis
    unfolding if_not_P[OF ne] nb dp by auto
qed

text \<open>
  The claim as stated fails on that catalog: the returned bundles are the input's in
  another order.
\<close>

theorem full_without_configuration_counterexample:
  "FilterCatalog exampleExternals (NewMirrorFilter \<lparr>cfgPackages = []\<rparr> True) (Some smallCatalog) =
     (Some (smallCatalog\<lparr>Bundles := [mkBundle ''p'' ''x1'' ''1.0.0'',
                                      mkBundle ''p'' ''x2'' ''2.0.0'']\<rparr>), None) \<and>
   Bundles smallCatalog = [mkBundle ''p'' ''x2'' ''2.0.0'', mkBundle ''p'' ''x1'' ''1.0.0''] \<and>
   mkBundle ''p'' ''x1'' ''1.0.0'' \<noteq> mkBundle ''p'' ''x2'' ''2.0.0''"
  by (simp add: model_defs example_defs)

subsection \<open>Deprecation entries of channels that are pruned\<close>

text \<open>
  C3 fails on the code. The catalog has one package \<open>p\<close> with the default channel \<open>a\<close>,
  a second channel \<open>b\<close>, and a deprecation entry for the channel \<open>b\<close>. A filter that
  names the package and nothing else keeps the default channel only, reduced to its
  head \<open>x2\<close>, and the one bundle \<open>x2\<close>; the deprecation entry of the channel \<open>b\<close> is
  still in the returned catalog, whose channels do not hold \<open>b\<close>. The channel names
  that \<open>filterDeprecations\<close> consults are those of the index, which was built before
  \<open>keepPackageDefaultChannel\<close> removed the channel. When the filter names the channel
  \<open>a\<close> instead, so that \<open>b\<close> is removed before the index is built, the entry is dropped.
\<close>

theorem deprecation_of_pruned_channel_survives:
  "FilterCatalog exampleExternals (NewMirrorFilter packageOnlyConfig False)
     (Some (twoChannelCatalog ''a'')) =
     (Some \<lparr>Packages = [\<lparr>pName = ''p'', pDefaultChannel = ''a''\<rparr>],
            Channels = Some [\<lparr>cName = ''a'', cPackage = ''p'',
                              cEntries = [mkEntry ''x2'' ''x1'']\<rparr>],
            Bundles = [mkBundle ''p'' ''x2'' ''2.0.0''],
            Deprecations =
              [\<lparr>dPackage = ''p'',
                dEntries = [\<lparr>rSchema = ''olm.channel'', rName = ''b'', rMessage = []\<rparr>]\<rparr>],
            Others = []\<rparr>, None) \<and>
   FilterCatalog exampleExternals (NewMirrorFilter (channelConfig [] ''a'') False)
     (Some (twoChannelCatalog ''a'')) =
     (Some \<lparr>Packages = [\<lparr>pName = ''p'', pDefaultChannel = ''a''\<rparr>],
            Channels = Some [\<lparr>cName = ''a'', cPackage = ''p'',
                              cEntries = [mkEntry ''x2'' ''x1'']\<rparr>],
            Bundles = [mkBundle ''p'' ''x2'' ''2.0.0''],
            Deprecations = [\<lparr>dPackage = ''p'', dEntries = []\<rparr>],
            Others = []\<rparr>, None)"
  by (simp add: model_defs example_defs2 packageOnlyConfig_def)

subsection \<open>The channels of the index and the search for the default channel\<close>

lemma takeWhile_search:
  fixes g :: "'a \<Rightarrow> 'b :: linorder"
  shows "sorted (map g xs) \<Longrightarrow>
   (length (takeWhile (\<lambda>c. g c < k) xs) < length xs \<and>
    g (xs ! length (takeWhile (\<lambda>c. g c < k) xs)) = k) = (k \<in> g ` set xs)"
proof (induction xs)
  case Nil
  then show ?case by simp
next
  case (Cons x xs)
  show ?case
  proof (cases "g x < k")
    case True
    with Cons show ?thesis by auto
  next
    case False
    have "g x = k" if "y \<in> set xs" "g y = k" for y
    proof -
      from Cons.prems that(1) have "g x \<le> g y" by auto
      with False that(2) show ?thesis by simp
    qed
    with False show ?thesis by auto
  qed
qed

lemma BinarySearchFunc_found:
  "sorted (map channelKey xs) \<Longrightarrow>
   snd (BinarySearchFunc xs t) = (channelKey t \<in> channelKey ` set xs)"
  using takeWhile_search[of channelKey xs "channelKey t"]
  by (simp add: BinarySearchFunc_def Let_def)

lemma keepPackageDefaultChannel_found:
  "snd (BinarySearchFunc
          (sort_key channelKey (case ixChannels index (pName pkg) of None \<Rightarrow> [] | Some l \<Rightarrow> l))
          \<lparr>cName = pDefaultChannel pkg, cPackage = pName pkg, cEntries = []\<rparr>) =
     ((pName pkg, pDefaultChannel pkg) \<in> channelKeys index (pName pkg))"
  by (simp add: BinarySearchFunc_found channelKeys_def) (simp add: channelKey_def)

lemma keepPackageDefaultChannel_result:
  shows "(pName pkg, pDefaultChannel pkg) \<in> channelKeys index (pName pkg) \<Longrightarrow>
         \<exists>st'. keepPackageDefaultChannel fbc pkg index = Inr st'"
    and "(pName pkg, pDefaultChannel pkg) \<notin> channelKeys index (pName pkg) \<Longrightarrow>
         keepPackageDefaultChannel fbc pkg index =
           Inl (ErrDefaultChannelNotFound (pDefaultChannel pkg) (pName pkg))"
  using keepPackageDefaultChannel_found[of index pkg]
  by (simp_all add: keepPackageDefaultChannel_def Let_def split: option.splits)

lemma keepPackageDefaultChannel_keys:
  assumes "keepPackageDefaultChannel fbc pkg index = Inr st'"
  shows "channelKeys (snd st') = channelKeys index"
proof
  fix p
  from assms have s: "snd st' =
      (case ixChannels index (pName pkg) of
         None \<Rightarrow> index
       | Some l \<Rightarrow> index\<lparr>ixChannels := (ixChannels index)(pName pkg \<mapsto> sort_key channelKey l)\<rparr>)"
    by (auto simp: keepPackageDefaultChannel_def Let_def split: if_splits option.splits)
  show "channelKeys (snd st') p = channelKeys index p"
    unfolding s by (cases "ixChannels index (pName pkg)") (simp_all add: channelKeys_def)
qed

lemma packageBody_keys:
  assumes "packageBody f i pkg st = Inr st'"
  shows "channelKeys (snd st') = channelKeys (snd st)"
  using assms
  by (auto simp: packageBody_def Let_def split: if_splits option.splits sum.splits
      dest: keepPackageDefaultChannel_keys)

lemma packageLoop_keys:
  "packageLoop f i pkgs st = Inr st' \<Longrightarrow> channelKeys (snd st') = channelKeys (snd st)"
proof (induction pkgs arbitrary: i st)
  case Nil
  then show ?case by simp
next
  case (Cons pkg rest)
  from Cons.prems obtain st1 where b: "packageBody f i pkg st = Inr st1"
    and l: "packageLoop f (Suc i) rest st1 = Inr st'"
    by (auto split: sum.splits)
  from Cons.IH[OF l] packageBody_keys[OF b] show ?case by simp
qed

lemma foldl_indexChannel_channels:
  "ixChannels (foldl indexChannel index chs) p =
     (if filter (\<lambda>ch. cPackage ch = p) chs = [] then ixChannels index p
      else Some ((case ixChannels index p of None \<Rightarrow> [] | Some l \<Rightarrow> l) @
                 filter (\<lambda>ch. cPackage ch = p) chs))"
  by (induction chs arbitrary: index) (auto simp: indexChannel_def split: option.splits)

lemma foldl_indexPackage_channels:
  "ixChannels (foldl indexPackage index ps) = ixChannels index"
  by (induction ps arbitrary: index) (simp_all add: indexPackage_def)

lemma index_channelKeys:
  fixes index :: "'v operatorIndex"
  assumes "indexFromDeclCfg ext fbc = Inr index"
  shows "channelKeys index p = Pair p ` channelNames fbc p"
proof -
  have "ixChannels index =
          ixChannels
            (foldl indexChannel
               (foldl indexPackage (newOperatorIndex :: 'v operatorIndex) (Packages fbc))
               (elems (Channels fbc)))"
    using indexBundles_lookup[OF assms[unfolded indexFromDeclCfg_def]] by simp
  then have "ixChannels index p =
          (if filter (\<lambda>ch. cPackage ch = p) (elems (Channels fbc)) = [] then None
           else Some (filter (\<lambda>ch. cPackage ch = p) (elems (Channels fbc))))"
    by (simp add: foldl_indexChannel_channels foldl_indexPackage_channels newOperatorIndex_def)
  then show ?thesis
    by (cases "filter (\<lambda>ch. cPackage ch = p) (elems (Channels fbc)) = []")
       (auto simp add: channelKeys_def channelNames_def channelKey_def image_iff)
qed

lemma index_setHas:
  fixes index :: "'v operatorIndex"
  assumes "indexFromDeclCfg ext fbc = Inr index"
  shows "setHas (ixChannelNames index p) x = (x \<in> channelNames fbc p)"
  by (simp add: index_channelNames[OF assms] setHas_def)

subsection \<open>One package in the loop over the packages\<close>

lemma setDefaultChannel_name:
  "setDefaultChannel pkg pkgConfig channels = Inr pkg' \<Longrightarrow> pName pkg' = pName pkg"
  by (auto simp: setDefaultChannel_def split: if_splits)

lemma packageBody_configured:
  assumes cfg: "map_of (pkgConfigs f) (pName pkg) = Some pkgConfig"
    and ok: "setDefaultChannel pkg pkgConfig (ixChannelNames (snd st) (pName pkg)) = Inr pkg'"
    and i: "i < length (Packages (fst st))"
  shows "(fChannels pkgConfig = [] \<and> \<not> optsFull f) \<and> fSelectedBundles pkgConfig = [] \<Longrightarrow>
         (pName pkg, pDefaultChannel pkg') \<notin> channelKeys (snd st) (pName pkg) \<Longrightarrow>
         packageBody f i pkg st =
           Inl (ErrFailureFilteringDefaultChannel (pName pkg)
                  (ErrDefaultChannelNotFound (pDefaultChannel pkg') (pName pkg)))"
    and "\<not> ((fChannels pkgConfig = [] \<and> \<not> optsFull f) \<and> fSelectedBundles pkgConfig = []) \<or>
         (pName pkg, pDefaultChannel pkg') \<in> channelKeys (snd st) (pName pkg) \<Longrightarrow>
         \<exists>st'. packageBody f i pkg st = Inr st' \<and>
               pDefaultChannel (Packages (fst st') ! i) = pDefaultChannel pkg'"
proof -
  note n = setDefaultChannel_name[OF ok]
  let ?fbc1 = "(fst st)\<lparr>Packages :=
                 (Packages (fst st))[i := (Packages (fst st) ! i)
                    \<lparr>pDefaultChannel := pDefaultChannel pkg'\<rparr>]\<rparr>"
  have body: "packageBody f i pkg st =
      (if (fChannels pkgConfig = [] \<and> \<not> optsFull f) \<and> fSelectedBundles pkgConfig = []
       then (case keepPackageDefaultChannel ?fbc1 pkg' (snd st) of
               Inl err \<Rightarrow> Inl (ErrFailureFilteringDefaultChannel (pName pkg) err)
             | Inr st' \<Rightarrow> Inr st')
       else Inr (?fbc1, snd st))"
    by (simp add: packageBody_def Let_def cfg ok)
  {
    assume "(fChannels pkgConfig = [] \<and> \<not> optsFull f) \<and> fSelectedBundles pkgConfig = []"
      and "(pName pkg, pDefaultChannel pkg') \<notin> channelKeys (snd st) (pName pkg)"
    with keepPackageDefaultChannel_result(2)[of pkg' "snd st" ?fbc1] n
    show "packageBody f i pkg st =
           Inl (ErrFailureFilteringDefaultChannel (pName pkg)
                  (ErrDefaultChannelNotFound (pDefaultChannel pkg') (pName pkg)))"
      by (simp add: body)
  }
  {
    assume a: "\<not> ((fChannels pkgConfig = [] \<and> \<not> optsFull f) \<and> fSelectedBundles pkgConfig = []) \<or>
         (pName pkg, pDefaultChannel pkg') \<in> channelKeys (snd st) (pName pkg)"
    show "\<exists>st'. packageBody f i pkg st = Inr st' \<and>
               pDefaultChannel (Packages (fst st') ! i) = pDefaultChannel pkg'"
    proof (cases "(fChannels pkgConfig = [] \<and> \<not> optsFull f) \<and> fSelectedBundles pkgConfig = []")
      case False
      show ?thesis unfolding body if_not_P[OF False] using i by simp
    next
      case True
      with a have "(pName pkg', pDefaultChannel pkg') \<in> channelKeys (snd st) (pName pkg')"
        by (simp add: n)
      from keepPackageDefaultChannel_result(1)[OF this, of ?fbc1] obtain st' where
        k: "keepPackageDefaultChannel ?fbc1 pkg' (snd st) = Inr st'" by blast
      from keepPackageDefaultChannel_frame(1)[OF k] i
      have "pDefaultChannel (Packages (fst st') ! i) = pDefaultChannel pkg'" by simp
      with True k show ?thesis by (simp add: body)
    qed
  }
qed

subsection \<open>The filters of one package on the catalog with two channels\<close>

lemma channelFilter_eval:
  "NewMirrorFilter (channelConfig dflt ch) False =
     \<lparr>pkgConfigs = [(''p'', \<lparr>fName = ''p'', fDefaultChannel = dflt, fVersionRange = [],
                      fChannels = [\<lparr>fcName = ch, fcVersionRange = []\<rparr>],
                      fSelectedBundles = []\<rparr>)],
      chConfigs = [(''p'', [(ch, \<lparr>fcName = ch, fcVersionRange = []\<rparr>)])], optsFull = False\<rparr>"
  by (simp add: model_defs example_defs2)

lemma channelFilter_pruned:
  "ch = ''a'' \<or> ch = ''b'' \<Longrightarrow>
   pruned (NewMirrorFilter (channelConfig dflt ch) False) (twoChannelCatalog d) =
     (twoChannelCatalog d)\<lparr>Channels :=
        Some (filter (\<lambda>c. cName c = ch) (elems (Channels (twoChannelCatalog d))))\<rparr>"
  by (auto simp add: channelFilter_eval pruned_def filterByPackageAndChannels_def
      emptyDeclarativeConfig_def configured_def keepChannel_def twoChannelCatalog_def elems_def
      mkBundle_def mkEntry_def)

lemma channelFilter_index:
  "ch = ''a'' \<or> ch = ''b'' \<Longrightarrow>
   \<exists>index :: string operatorIndex.
     indexFromDeclCfg exampleExternals
       (pruned (NewMirrorFilter (channelConfig dflt ch) False) (twoChannelCatalog d)) = Inr index"
  by (auto simp add: channelFilter_pruned) (simp_all add: model_defs example_defs2)

lemma channelFilter_surviving:
  assumes "ch = ''a'' \<or> ch = ''b''"
  shows "channelNames (pruned (NewMirrorFilter (channelConfig dflt ch) False)
                         (twoChannelCatalog d)) ''p'' = {ch}"
proof -
  have "elems (Channels (pruned (NewMirrorFilter (channelConfig dflt ch) False)
                           (twoChannelCatalog d))) =
          filter (\<lambda>c. cName c = ch) (elems (Channels (twoChannelCatalog d)))"
    by (simp add: channelFilter_pruned[OF assms] elems_def)
  then show ?thesis
    using assms unfolding channelNames_def
    by (auto simp add: twoChannelCatalog_def elems_def)
qed

lemma packageFilter_eval:
  "NewMirrorFilter packageOnlyConfig False =
     \<lparr>pkgConfigs = [(''p'', \<lparr>fName = ''p'', fDefaultChannel = [], fVersionRange = [],
                      fChannels = [], fSelectedBundles = []\<rparr>)],
      chConfigs = [(''p'', [])], optsFull = False\<rparr>"
  by (simp add: model_defs packageOnlyConfig_def)

lemma packageFilter_pruned:
  "pruned (NewMirrorFilter packageOnlyConfig False) (twoChannelCatalog d) = twoChannelCatalog d"
  by (simp add: packageFilter_eval pruned_def filterByPackageAndChannels_def
      emptyDeclarativeConfig_def configured_def keepChannel_def twoChannelCatalog_def elems_def
      mkBundle_def mkEntry_def)

lemma packageFilter_index:
  "\<exists>index :: string operatorIndex.
     indexFromDeclCfg exampleExternals
       (pruned (NewMirrorFilter packageOnlyConfig False) (twoChannelCatalog d)) = Inr index"
  unfolding packageFilter_pruned by (simp add: model_defs example_defs2)

subsection \<open>Default channel reconciliation\<close>

text \<open>
  C4, as amended. Take a package of the pruned catalog that has a package filter, when
  the pruned catalog is indexed without error and the loop over the packages passes
  every package before it. The surviving channel names are the names of the channels of
  the package in the pruned catalog.
  If neither the package nor its filter names a default channel: when the filter is not
  full, the package filter lists no channels and no bundles, and no surviving channel
  has the empty name, the call fails with \<open>failure in filtering default channel for
  package ...: default channel  not found for package ...\<close>; otherwise the loop passes
  the package and leaves its default channel unset.
  If the filter names a default channel that is not among the surviving names, the call
  fails with \<open>invalid default channel configuration for package ...: specified default
  channel override ... does not exist in the filtered output\<close>; if it is among them, the
  loop passes the package and leaves that override as its default channel.
  If the filter names none and the package's own default channel is not among the
  surviving names, the call fails with \<open>invalid default channel configuration for package
  ...: the default channel ... was filtered out, a new default channel must be configured
  for this package\<close>; if it is among them, the loop passes the package and leaves its
  default channel as it is.
  Whenever the call returns a catalog and no error, the default channel of the package
  in that catalog is the override if the filter names one, and the package's own
  otherwise.
\<close>

theorem default_channel_reconciliation:
  fixes ext :: "('c, 'v) externals" and index :: "'v operatorIndex"
    and f :: mirrorFilter and fbc :: DeclarativeConfig and i :: nat
    and pkgConfig :: cfg_Package
  defines "pkg \<equiv> Packages (pruned f fbc) ! i"
  defines "surviving \<equiv> channelNames (pruned f fbc) (pName (Packages (pruned f fbc) ! i))"
  defines "result \<equiv> FilterCatalog ext f (Some fbc)"
  defines "defaultOnly \<equiv>
             (fChannels pkgConfig = [] \<and> \<not> optsFull f) \<and> fSelectedBundles pkgConfig = []"
  assumes "indexFromDeclCfg ext (pruned f fbc) = Inr index"
    and "\<not> isl (packageLoop f 0 (take i (Packages (pruned f fbc))) (pruned f fbc, index))"
    and "i < length (Packages (pruned f fbc))"
    and "map_of (pkgConfigs f) (pName (Packages (pruned f fbc) ! i)) = Some pkgConfig"
  shows
    "(pDefaultChannel pkg = [] \<and> fDefaultChannel pkgConfig = [] \<longrightarrow>
        (if defaultOnly \<and> [] \<notin> surviving
         then result = (None, Some (ErrFailureFilteringDefaultChannel (pName pkg)
                                     (ErrDefaultChannelNotFound [] (pName pkg))))
         else defaultAfter f (pruned f fbc) index i = Some [])) \<and>
     (fDefaultChannel pkgConfig \<noteq> [] \<and> fDefaultChannel pkgConfig \<notin> surviving \<longrightarrow>
        result = (None, Some (ErrInvalidDefaultChannelConfiguration (pName pkg)
                               (ErrOverrideDoesNotExist (fDefaultChannel pkgConfig))))) \<and>
     (fDefaultChannel pkgConfig \<noteq> [] \<and> fDefaultChannel pkgConfig \<in> surviving \<longrightarrow>
        defaultAfter f (pruned f fbc) index i = Some (fDefaultChannel pkgConfig)) \<and>
     (fDefaultChannel pkgConfig = [] \<and> pDefaultChannel pkg \<noteq> [] \<and>
      pDefaultChannel pkg \<notin> surviving \<longrightarrow>
        result = (None, Some (ErrInvalidDefaultChannelConfiguration (pName pkg)
                               (ErrDefaultFilteredOut (pDefaultChannel pkg))))) \<and>
     (fDefaultChannel pkgConfig = [] \<and> pDefaultChannel pkg \<noteq> [] \<and>
      pDefaultChannel pkg \<in> surviving \<longrightarrow>
        defaultAfter f (pruned f fbc) index i = Some (pDefaultChannel pkg)) \<and>
     (\<forall>out. result = (Some out, None) \<longrightarrow>
        pDefaultChannel (Packages out ! i) =
          (if fDefaultChannel pkgConfig \<noteq> [] then fDefaultChannel pkgConfig
           else pDefaultChannel pkg))"
proof -
  define pkgs where "pkgs = Packages (pruned f fbc)"
  have pkg: "pkg = pkgs ! i" by (simp add: pkg_def pkgs_def)
  have cfg: "map_of (pkgConfigs f) (pName pkg) = Some pkgConfig"
    using assms(8) by (simp add: pkg_def)
  have i: "i < length pkgs" using assms(7) by (simp add: pkgs_def)
  obtain st where reach: "packageLoop f 0 (take i pkgs) (pruned f fbc, index) = Inr st"
    using assms(6)
    by (cases "packageLoop f 0 (take i pkgs) (pruned f fbc, index)") (simp_all add: pkgs_def)
  have split: "pkgs = take i pkgs @ pkg # drop (Suc i) pkgs"
    using i by (simp add: pkg id_take_nth_drop)
  have min_i: "min (length pkgs) i = i" using i by simp
  from packageLoop_frame[OF reach]
  have st_len: "i < length (Packages (fst st))"
    and st_names: "ixChannelNames (snd st) = ixChannelNames index"
    using i by (simp_all add: pkgs_def)
  have st_keys: "channelKeys (snd st) = channelKeys index"
    using packageLoop_keys[OF reach] by simp
  have has: "setHas (ixChannelNames (snd st) (pName pkg)) x = (x \<in> surviving)" for x
    unfolding st_names index_setHas[OF assms(5)] by (simp add: surviving_def pkg_def)
  have keys: "((pName pkg, x) \<in> channelKeys (snd st) (pName pkg)) = (x \<in> surviving)" for x
    unfolding st_keys index_channelKeys[OF assms(5)] by (auto simp add: surviving_def pkg_def)
  have "packageLoop f 0 (take i pkgs @ pkg # drop (Suc i) pkgs) (pruned f fbc, index) =
          (case packageBody f i pkg st of
             Inl err \<Rightarrow> Inl err
           | Inr st' \<Rightarrow> packageLoop f (Suc i) (drop (Suc i) pkgs) st')"
    by (simp add: packageLoop_append reach min_i)
  with split have loop:
    "packageLoop f 0 pkgs (pruned f fbc, index) =
       (case packageBody f i pkg st of
          Inl err \<Rightarrow> Inl err
        | Inr st' \<Rightarrow> packageLoop f (Suc i) (drop (Suc i) pkgs) st')"
    by simp
  have "packageLoop f 0 (take i pkgs @ [pkg]) (pruned f fbc, index) = packageBody f i pkg st"
    by (simp add: packageLoop_append reach min_i split: sum.splits)
  then have upto: "packageLoop f 0 (take (Suc i) pkgs) (pruned f fbc, index) =
                     packageBody f i pkg st"
    using i by (simp add: take_Suc_conv_app_nth pkg)
  have body_fails: "result = (None, Some e)" if "packageBody f i pkg st = Inl e" for e
  proof -
    from loop that have "packageLoop f 0 pkgs (pruned f fbc, index) = Inl e" by simp
    then show ?thesis
      unfolding result_def FilterCatalog_unfold assms(5) pkgs_def by simp
  qed
  have fails: "result = (None, Some (ErrInvalidDefaultChannelConfiguration (pName pkg) err))"
    if "setDefaultChannel pkg pkgConfig (ixChannelNames (snd st) (pName pkg)) = Inl err" for err
    by (rule body_fails) (rule packageBody_reconcile_fails[OF cfg that])
  have passes: "defaultAfter f (pruned f fbc) index i = Some (pDefaultChannel pkg')"
    if ok: "setDefaultChannel pkg pkgConfig (ixChannelNames (snd st) (pName pkg)) = Inr pkg'"
      and c: "\<not> defaultOnly \<or> pDefaultChannel pkg' \<in> surviving" for pkg'
  proof -
    from c have "\<not> ((fChannels pkgConfig = [] \<and> \<not> optsFull f) \<and> fSelectedBundles pkgConfig = []) \<or>
         (pName pkg, pDefaultChannel pkg') \<in> channelKeys (snd st) (pName pkg)"
      unfolding keys defaultOnly_def .
    from packageBody_configured(2)[OF cfg ok st_len this] obtain st' where
      b: "packageBody f i pkg st = Inr st'"
      and d: "pDefaultChannel (Packages (fst st') ! i) = pDefaultChannel pkg'" by blast
    show ?thesis
      unfolding defaultAfter_def upto[unfolded pkgs_def] b using d by simp
  qed
  have notfound: "result = (None, Some (ErrFailureFilteringDefaultChannel (pName pkg)
                    (ErrDefaultChannelNotFound (pDefaultChannel pkg') (pName pkg))))"
    if ok: "setDefaultChannel pkg pkgConfig (ixChannelNames (snd st) (pName pkg)) = Inr pkg'"
      and c: "defaultOnly" "pDefaultChannel pkg' \<notin> surviving" for pkg'
  proof -
    from c(2) have "(pName pkg, pDefaultChannel pkg') \<notin> channelKeys (snd st) (pName pkg)"
      unfolding keys .
    from packageBody_configured(1)[OF cfg ok st_len c(1)[unfolded defaultOnly_def] this]
    show ?thesis by (rule body_fails)
  qed
  have succeeds: "pDefaultChannel (Packages out ! i) = pDefaultChannel pkg'"
    if ok: "setDefaultChannel pkg pkgConfig (ixChannelNames (snd st) (pName pkg)) = Inr pkg'"
      and res: "result = (Some out, None)" for pkg' out
  proof -
    from FilterCatalog_success_Packages[OF res[unfolded result_def] assms(5)] obtain st1 where
      l: "packageLoop f 0 pkgs (pruned f fbc, index) = Inr st1"
      and out: "Packages out = Packages (fst st1)" unfolding pkgs_def by blast
    from l loop obtain st' where b: "packageBody f i pkg st = Inr st'"
      and r: "packageLoop f (Suc i) (drop (Suc i) pkgs) st' = Inr st1"
      by (cases "packageBody f i pkg st") simp_all
    have "pDefaultChannel (Packages (fst st') ! i) = pDefaultChannel pkg'"
      by (rule packageBody_reconcile_ok[OF cfg ok b st_len])
    moreover have "Packages (fst st1) ! i = Packages (fst st') ! i"
      using packageLoop_frame[OF r] by simp
    ultimately show ?thesis by (simp add: out)
  qed
  have none: "setDefaultChannel pkg pkgConfig (ixChannelNames (snd st) (pName pkg)) = Inr pkg"
    if "pDefaultChannel pkg = [] \<and> fDefaultChannel pkgConfig = []"
    using that by (simp add: setDefaultChannel_def)
  have override_bad: "setDefaultChannel pkg pkgConfig (ixChannelNames (snd st) (pName pkg)) =
                        Inl (ErrOverrideDoesNotExist (fDefaultChannel pkgConfig))"
    if "fDefaultChannel pkgConfig \<noteq> [] \<and> fDefaultChannel pkgConfig \<notin> surviving"
    using that by (simp add: setDefaultChannel_def has)
  have override_ok: "setDefaultChannel pkg pkgConfig (ixChannelNames (snd st) (pName pkg)) =
                       Inr (pkg\<lparr>pDefaultChannel := fDefaultChannel pkgConfig\<rparr>)"
    if "fDefaultChannel pkgConfig \<noteq> [] \<and> fDefaultChannel pkgConfig \<in> surviving"
    using that by (simp add: setDefaultChannel_def has)
  have own_bad: "setDefaultChannel pkg pkgConfig (ixChannelNames (snd st) (pName pkg)) =
                   Inl (ErrDefaultFilteredOut (pDefaultChannel pkg))"
    if "fDefaultChannel pkgConfig = [] \<and> pDefaultChannel pkg \<noteq> [] \<and>
        pDefaultChannel pkg \<notin> surviving"
    using that by (simp add: setDefaultChannel_def has)
  have own_ok: "setDefaultChannel pkg pkgConfig (ixChannelNames (snd st) (pName pkg)) = Inr pkg"
    if "fDefaultChannel pkgConfig = [] \<and> pDefaultChannel pkg \<noteq> [] \<and>
        pDefaultChannel pkg \<in> surviving"
    using that by (simp add: setDefaultChannel_def has)
  have c1: "pDefaultChannel pkg = [] \<and> fDefaultChannel pkgConfig = [] \<longrightarrow>
        (if defaultOnly \<and> [] \<notin> surviving
         then result = (None, Some (ErrFailureFilteringDefaultChannel (pName pkg)
                                     (ErrDefaultChannelNotFound [] (pName pkg))))
         else defaultAfter f (pruned f fbc) index i = Some [])"
  proof
    assume a: "pDefaultChannel pkg = [] \<and> fDefaultChannel pkgConfig = []"
    show "if defaultOnly \<and> [] \<notin> surviving
         then result = (None, Some (ErrFailureFilteringDefaultChannel (pName pkg)
                                     (ErrDefaultChannelNotFound [] (pName pkg))))
         else defaultAfter f (pruned f fbc) index i = Some []"
    proof (cases "defaultOnly \<and> [] \<notin> surviving")
      case True
      with notfound[OF none[OF a]] a show ?thesis by simp
    next
      case False
      with passes[OF none[OF a]] a show ?thesis by auto
    qed
  qed
  have c2: "fDefaultChannel pkgConfig \<noteq> [] \<and> fDefaultChannel pkgConfig \<notin> surviving \<longrightarrow>
        result = (None, Some (ErrInvalidDefaultChannelConfiguration (pName pkg)
                               (ErrOverrideDoesNotExist (fDefaultChannel pkgConfig))))"
    using fails[OF override_bad] by blast
  have c3: "fDefaultChannel pkgConfig \<noteq> [] \<and> fDefaultChannel pkgConfig \<in> surviving \<longrightarrow>
        defaultAfter f (pruned f fbc) index i = Some (fDefaultChannel pkgConfig)"
  proof
    assume a: "fDefaultChannel pkgConfig \<noteq> [] \<and> fDefaultChannel pkgConfig \<in> surviving"
    from passes[OF override_ok[OF a]] a
    show "defaultAfter f (pruned f fbc) index i = Some (fDefaultChannel pkgConfig)" by simp
  qed
  have c4: "fDefaultChannel pkgConfig = [] \<and> pDefaultChannel pkg \<noteq> [] \<and>
      pDefaultChannel pkg \<notin> surviving \<longrightarrow>
        result = (None, Some (ErrInvalidDefaultChannelConfiguration (pName pkg)
                               (ErrDefaultFilteredOut (pDefaultChannel pkg))))"
    using fails[OF own_bad] by blast
  have c5: "fDefaultChannel pkgConfig = [] \<and> pDefaultChannel pkg \<noteq> [] \<and>
      pDefaultChannel pkg \<in> surviving \<longrightarrow>
        defaultAfter f (pruned f fbc) index i = Some (pDefaultChannel pkg)"
  proof
    assume a: "fDefaultChannel pkgConfig = [] \<and> pDefaultChannel pkg \<noteq> [] \<and>
      pDefaultChannel pkg \<in> surviving"
    from passes[OF own_ok[OF a]] a
    show "defaultAfter f (pruned f fbc) index i = Some (pDefaultChannel pkg)" by simp
  qed
  have c6: "\<forall>out. result = (Some out, None) \<longrightarrow>
        pDefaultChannel (Packages out ! i) =
          (if fDefaultChannel pkgConfig \<noteq> [] then fDefaultChannel pkgConfig
           else pDefaultChannel pkg)"
  proof (intro allI impI)
    fix out assume r: "result = (Some out, None)"
    consider (a) "pDefaultChannel pkg = [] \<and> fDefaultChannel pkgConfig = []"
      | (b) "fDefaultChannel pkgConfig \<noteq> [] \<and> fDefaultChannel pkgConfig \<notin> surviving"
      | (c) "fDefaultChannel pkgConfig \<noteq> [] \<and> fDefaultChannel pkgConfig \<in> surviving"
      | (d) "fDefaultChannel pkgConfig = [] \<and> pDefaultChannel pkg \<noteq> [] \<and>
             pDefaultChannel pkg \<notin> surviving"
      | (e) "fDefaultChannel pkgConfig = [] \<and> pDefaultChannel pkg \<noteq> [] \<and>
             pDefaultChannel pkg \<in> surviving"
      by blast
    then show "pDefaultChannel (Packages out ! i) =
          (if fDefaultChannel pkgConfig \<noteq> [] then fDefaultChannel pkgConfig
           else pDefaultChannel pkg)"
    proof cases
      case a
      from succeeds[OF none[OF a] r] a show ?thesis by simp
    next
      case b
      from fails[OF override_bad[OF b]] r show ?thesis by simp
    next
      case c
      from succeeds[OF override_ok[OF c] r] c show ?thesis by simp
    next
      case d
      from fails[OF own_bad[OF d]] r show ?thesis by simp
    next
      case e
      from succeeds[OF own_ok[OF e] r] e show ?thesis by simp
    qed
  qed
  from c1 c2 c3 c4 c5 c6 show ?thesis by (intro conjI)
qed

text \<open>
  The theorem at a package \<open>p\<close> with the channels \<open>a\<close> and \<open>b\<close>. A filter that names the
  package only, with no default channel anywhere: the call fails in the reduction to the
  default channel. A filter that keeps one channel: no default channel anywhere; the
  override \<open>b\<close> when only \<open>a\<close> is kept; the override \<open>b\<close> when \<open>b\<close> is kept; the default
  channel \<open>a\<close> of the catalog when only \<open>b\<close> is kept, and when \<open>a\<close> is kept.
\<close>

theorem default_channel_reconciliation_witness:
  "FilterCatalog exampleExternals (NewMirrorFilter packageOnlyConfig False)
     (Some (twoChannelCatalog [])) =
     (None, Some (ErrFailureFilteringDefaultChannel ''p'' (ErrDefaultChannelNotFound [] ''p''))) \<and>
   (\<exists>(index :: string operatorIndex) out.
      indexFromDeclCfg exampleExternals
        (pruned (NewMirrorFilter (channelConfig [] ''a'') False) (twoChannelCatalog [])) =
        Inr index \<and>
      defaultAfter (NewMirrorFilter (channelConfig [] ''a'') False)
        (pruned (NewMirrorFilter (channelConfig [] ''a'') False) (twoChannelCatalog []))
        index 0 = Some [] \<and>
      FilterCatalog exampleExternals (NewMirrorFilter (channelConfig [] ''a'') False)
        (Some (twoChannelCatalog [])) = (Some out, None) \<and>
      pDefaultChannel (Packages out ! 0) = []) \<and>
   FilterCatalog exampleExternals (NewMirrorFilter (channelConfig ''b'' ''a'') False)
     (Some (twoChannelCatalog ''a'')) =
     (None, Some (ErrInvalidDefaultChannelConfiguration ''p'' (ErrOverrideDoesNotExist ''b''))) \<and>
   (\<exists>(index :: string operatorIndex) out.
      indexFromDeclCfg exampleExternals
        (pruned (NewMirrorFilter (channelConfig ''b'' ''b'') False) (twoChannelCatalog ''a'')) =
        Inr index \<and>
      defaultAfter (NewMirrorFilter (channelConfig ''b'' ''b'') False)
        (pruned (NewMirrorFilter (channelConfig ''b'' ''b'') False) (twoChannelCatalog ''a''))
        index 0 = Some ''b'' \<and>
      FilterCatalog exampleExternals (NewMirrorFilter (channelConfig ''b'' ''b'') False)
        (Some (twoChannelCatalog ''a'')) = (Some out, None) \<and>
      pDefaultChannel (Packages out ! 0) = ''b'') \<and>
   FilterCatalog exampleExternals (NewMirrorFilter (channelConfig [] ''b'') False)
     (Some (twoChannelCatalog ''a'')) =
     (None, Some (ErrInvalidDefaultChannelConfiguration ''p'' (ErrDefaultFilteredOut ''a''))) \<and>
   (\<exists>index :: string operatorIndex.
      indexFromDeclCfg exampleExternals
        (pruned (NewMirrorFilter (channelConfig [] ''a'') False) (twoChannelCatalog ''a'')) =
        Inr index \<and>
      defaultAfter (NewMirrorFilter (channelConfig [] ''a'') False)
        (pruned (NewMirrorFilter (channelConfig [] ''a'') False) (twoChannelCatalog ''a''))
        index 0 = Some ''a'')"
proof -
  have hyps: "\<not> isl (packageLoop f 0 (take 0 (Packages (pruned f fbc))) (pruned f fbc, index))"
    for f fbc and index :: "string operatorIndex"
    by simp
  have pk: "Packages (pruned (NewMirrorFilter (channelConfig dflt ch) False) (twoChannelCatalog d)) =
              [\<lparr>pName = ''p'', pDefaultChannel = d\<rparr>]" if "ch = ''a'' \<or> ch = ''b''" for dflt ch d
    using that by (auto simp add: channelFilter_pruned) (simp_all add: twoChannelCatalog_def)
  have cf: "map_of (pkgConfigs (NewMirrorFilter (channelConfig dflt ch) False)) ''p'' =
              Some \<lparr>fName = ''p'', fDefaultChannel = dflt, fVersionRange = [],
                    fChannels = [\<lparr>fcName = ch, fcVersionRange = []\<rparr>], fSelectedBundles = []\<rparr>"
    for dflt ch by (simp add: channelFilter_eval)
  have opt: "optsFull (NewMirrorFilter (channelConfig dflt ch) False) = False" for dflt ch
    by (simp add: channelFilter_eval)
  have 0: "FilterCatalog exampleExternals (NewMirrorFilter packageOnlyConfig False)
     (Some (twoChannelCatalog [])) =
     (None, Some (ErrFailureFilteringDefaultChannel ''p'' (ErrDefaultChannelNotFound [] ''p'')))"
  proof -
    obtain index :: "string operatorIndex" where
      ix: "indexFromDeclCfg exampleExternals
             (pruned (NewMirrorFilter packageOnlyConfig False) (twoChannelCatalog [])) = Inr index"
      using packageFilter_index[of "[]"] by auto
    have sv: "channelNames (twoChannelCatalog []) ''p'' = {''a'', ''b''}"
      by (auto simp add: channelNames_def twoChannelCatalog_def elems_def)
    have pk0: "Packages (twoChannelCatalog []) = [\<lparr>pName = ''p'', pDefaultChannel = []\<rparr>]"
      by (simp add: twoChannelCatalog_def)
    have cf0: "map_of (pkgConfigs (NewMirrorFilter packageOnlyConfig False)) ''p'' =
                 Some \<lparr>fName = ''p'', fDefaultChannel = [], fVersionRange = [],
                       fChannels = [], fSelectedBundles = []\<rparr>"
      and opt0: "optsFull (NewMirrorFilter packageOnlyConfig False) = False"
      by (simp_all add: packageFilter_eval)
    from default_channel_reconciliation[OF ix hyps, of "\<lparr>fName = ''p'', fDefaultChannel = [],
        fVersionRange = [], fChannels = [], fSelectedBundles = []\<rparr>"]
    show ?thesis
      by (simp add: packageFilter_pruned sv pk0 cf0 opt0)
  qed
  have 1: "\<exists>(index :: string operatorIndex) out.
      indexFromDeclCfg exampleExternals
        (pruned (NewMirrorFilter (channelConfig [] ''a'') False) (twoChannelCatalog [])) =
        Inr index \<and>
      defaultAfter (NewMirrorFilter (channelConfig [] ''a'') False)
        (pruned (NewMirrorFilter (channelConfig [] ''a'') False) (twoChannelCatalog []))
        index 0 = Some [] \<and>
      FilterCatalog exampleExternals (NewMirrorFilter (channelConfig [] ''a'') False)
        (Some (twoChannelCatalog [])) = (Some out, None) \<and>
      pDefaultChannel (Packages out ! 0) = []"
  proof -
    obtain index :: "string operatorIndex" where
      ix: "indexFromDeclCfg exampleExternals
             (pruned (NewMirrorFilter (channelConfig [] ''a'') False) (twoChannelCatalog [])) = Inr index"
      using channelFilter_index[of "''a''" "[]" "[]"] by auto
    obtain out where
      r: "FilterCatalog exampleExternals (NewMirrorFilter (channelConfig [] ''a'') False)
            (Some (twoChannelCatalog [])) = (Some out, None)"
      by (simp add: model_defs example_defs2)
    from default_channel_reconciliation[OF ix hyps, of "\<lparr>fName = ''p'', fDefaultChannel = [],
        fVersionRange = [], fChannels = [\<lparr>fcName = ''a'', fcVersionRange = []\<rparr>],
        fSelectedBundles = []\<rparr>"] r ix
    show ?thesis by (simp add: pk cf opt channelFilter_surviving)
  qed
  have 2: "FilterCatalog exampleExternals (NewMirrorFilter (channelConfig ''b'' ''a'') False)
     (Some (twoChannelCatalog ''a'')) =
     (None, Some (ErrInvalidDefaultChannelConfiguration ''p'' (ErrOverrideDoesNotExist ''b'')))"
  proof -
    obtain index :: "string operatorIndex" where
      ix: "indexFromDeclCfg exampleExternals
             (pruned (NewMirrorFilter (channelConfig ''b'' ''a'') False) (twoChannelCatalog ''a'')) = Inr index"
      using channelFilter_index[of "''a''" "''b''" "''a''"] by auto
    from default_channel_reconciliation[OF ix hyps, of "\<lparr>fName = ''p'', fDefaultChannel = ''b'',
        fVersionRange = [], fChannels = [\<lparr>fcName = ''a'', fcVersionRange = []\<rparr>],
        fSelectedBundles = []\<rparr>"]
    show ?thesis by (simp add: pk cf opt channelFilter_surviving)
  qed
  have 3: "\<exists>(index :: string operatorIndex) out.
      indexFromDeclCfg exampleExternals
        (pruned (NewMirrorFilter (channelConfig ''b'' ''b'') False) (twoChannelCatalog ''a'')) =
        Inr index \<and>
      defaultAfter (NewMirrorFilter (channelConfig ''b'' ''b'') False)
        (pruned (NewMirrorFilter (channelConfig ''b'' ''b'') False) (twoChannelCatalog ''a''))
        index 0 = Some ''b'' \<and>
      FilterCatalog exampleExternals (NewMirrorFilter (channelConfig ''b'' ''b'') False)
        (Some (twoChannelCatalog ''a'')) = (Some out, None) \<and>
      pDefaultChannel (Packages out ! 0) = ''b''"
  proof -
    obtain index :: "string operatorIndex" where
      ix: "indexFromDeclCfg exampleExternals
             (pruned (NewMirrorFilter (channelConfig ''b'' ''b'') False) (twoChannelCatalog ''a'')) = Inr index"
      using channelFilter_index[of "''b''" "''b''" "''a''"] by auto
    obtain out where
      r: "FilterCatalog exampleExternals (NewMirrorFilter (channelConfig ''b'' ''b'') False)
            (Some (twoChannelCatalog ''a'')) = (Some out, None)"
      by (simp add: model_defs example_defs2)
    from default_channel_reconciliation[OF ix hyps, of "\<lparr>fName = ''p'', fDefaultChannel = ''b'',
        fVersionRange = [], fChannels = [\<lparr>fcName = ''b'', fcVersionRange = []\<rparr>],
        fSelectedBundles = []\<rparr>"] r ix
    show ?thesis by (simp add: pk cf opt channelFilter_surviving)
  qed
  have 4: "FilterCatalog exampleExternals (NewMirrorFilter (channelConfig [] ''b'') False)
     (Some (twoChannelCatalog ''a'')) =
     (None, Some (ErrInvalidDefaultChannelConfiguration ''p'' (ErrDefaultFilteredOut ''a'')))"
  proof -
    obtain index :: "string operatorIndex" where
      ix: "indexFromDeclCfg exampleExternals
             (pruned (NewMirrorFilter (channelConfig [] ''b'') False) (twoChannelCatalog ''a'')) = Inr index"
      using channelFilter_index[of "''b''" "[]" "''a''"] by auto
    from default_channel_reconciliation[OF ix hyps, of "\<lparr>fName = ''p'', fDefaultChannel = [],
        fVersionRange = [], fChannels = [\<lparr>fcName = ''b'', fcVersionRange = []\<rparr>],
        fSelectedBundles = []\<rparr>"]
    show ?thesis by (simp add: pk cf opt channelFilter_surviving)
  qed
  have 5: "\<exists>index :: string operatorIndex.
      indexFromDeclCfg exampleExternals
        (pruned (NewMirrorFilter (channelConfig [] ''a'') False) (twoChannelCatalog ''a'')) =
        Inr index \<and>
      defaultAfter (NewMirrorFilter (channelConfig [] ''a'') False)
        (pruned (NewMirrorFilter (channelConfig [] ''a'') False) (twoChannelCatalog ''a''))
        index 0 = Some ''a''"
  proof -
    obtain index :: "string operatorIndex" where
      ix: "indexFromDeclCfg exampleExternals
             (pruned (NewMirrorFilter (channelConfig [] ''a'') False) (twoChannelCatalog ''a'')) = Inr index"
      using channelFilter_index[of "''a''" "[]" "''a''"] by auto
    from default_channel_reconciliation[OF ix hyps, of "\<lparr>fName = ''p'', fDefaultChannel = [],
        fVersionRange = [], fChannels = [\<lparr>fcName = ''a'', fcVersionRange = []\<rparr>],
        fSelectedBundles = []\<rparr>"] ix
    show ?thesis by (simp add: pk cf opt channelFilter_surviving)
  qed
  from 0 1 2 3 4 5 show ?thesis by (intro conjI)
qed

text \<open>
  The claim as stated fails in two ways. The package \<open>q\<close> is configured and retained,
  and its filter names the default channel \<open>zq\<close>, which is not among its channels; the
  call does not fail with the error of that override but with the error of the package
  \<open>p\<close> before it, whose default channel \<open>a\<close> was filtered out. And for a package and a
  filter that both name no default channel, a filter that names the package only makes
  the call fail, with \<open>failure in filtering default channel ... not found\<close>.
\<close>

theorem default_channel_reconciliation_counterexample:
  "map (\<lambda>p. (pName p, pDefaultChannel p))
     (Packages (pruned (NewMirrorFilter twoPackageConfig False) twoPackageCatalog)) =
     [(''p'', ''a''), (''q'', ''a'')] \<and>
   map_option fDefaultChannel
     (map_of (pkgConfigs (NewMirrorFilter twoPackageConfig False)) ''q'') = Some ''zq'' \<and>
   channelNames (pruned (NewMirrorFilter twoPackageConfig False) twoPackageCatalog) ''q'' =
     {''a''} \<and>
   FilterCatalog exampleExternals (NewMirrorFilter twoPackageConfig False)
     (Some twoPackageCatalog) =
     (None, Some (ErrInvalidDefaultChannelConfiguration ''p'' (ErrDefaultFilteredOut ''a''))) \<and>
   map (\<lambda>p. (pName p, pDefaultChannel p))
     (Packages (pruned (NewMirrorFilter packageOnlyConfig False) (twoChannelCatalog []))) =
     [(''p'', [])] \<and>
   map_option fDefaultChannel
     (map_of (pkgConfigs (NewMirrorFilter packageOnlyConfig False)) ''p'') = Some [] \<and>
   FilterCatalog exampleExternals (NewMirrorFilter packageOnlyConfig False)
     (Some (twoChannelCatalog [])) =
     (None, Some (ErrFailureFilteringDefaultChannel ''p'' (ErrDefaultChannelNotFound [] ''p'')))"
  by (simp add: model_defs example_defs2 packageOnlyConfig_def twoPackageConfig_def
      twoPackageCatalog_def pruned_def channelNames_def)

section \<open>What a call does to its input\<close>

subsection \<open>Frames\<close>



lemma sliceElems_upd_other:
  "sArr sl \<noteq> Some a \<Longrightarrow> sliceElems (m(a \<mapsto> xs)) sl = sliceElems m sl"
  by (auto simp: sliceElems_def arrayAt_def split: option.splits)

lemma sliceElems_upd_same:
  "sArr sl = Some a \<Longrightarrow> sliceElems (m(a \<mapsto> xs)) sl = take (sLen sl) xs"
  by (simp add: sliceElems_def arrayAt_def)

lemma sliceElems_fresh:
  "sliceElems (m(nextAddr s \<mapsto> xs)) (freshSlice s (length xs)) = xs"
  by (simp add: sliceElems_def arrayAt_def freshSlice_def)

lemma sliceElems_nil: "sliceElems m nilSlice = []"
  by (simp add: sliceElems_def nilSlice_def)








lemma entOK_len: "entOK n E (sl\<lparr>sLen := k\<rparr>) = entOK n E sl"
  by (simp add: entOK_def)


lemma entOK_nil: "entOK n E nilSlice"
  by (simp add: entOK_def nilSlice_def)


subsection \<open>The invariant under the writes of a call\<close>
















subsection \<open>The invariant under the loop over the packages\<close>













subsection \<open>The invariant under the rebuilding of bundles and deprecations\<close>





subsection \<open>The invariant when the loops start\<close>






subsection \<open>The whole call\<close>







end
